theory Spec2Isabelle
  imports Main "HOL-Library.Log_Nat" "HOL-Library.Sublist"
begin

section \<open>JavaScript strings\<close>

text \<open>
  A JavaScript string is a sequence of UTF-16 code units; \<open>String.prototype.includes\<close>,
  \<open>indexOf\<close>, \<open>===\<close> and the regular expressions of the program (none has the \<open>u\<close>
  flag) all work on code units. A string is therefore a list of code units, each a
  natural number. \<open>asc\<close> embeds an ASCII literal; the Korean keywords of the program are
  written out as code units where they are needed.
\<close>

type_synonym ustring = "nat list"

definition asc :: "string \<Rightarrow> ustring" where
  "asc s = map of_char s"

text \<open>
  The class \<open>\s\<close> of a JavaScript regular expression, which is also the set of code units
  that \<open>String.prototype.trim\<close> and \<open>parseFloat\<close> strip: WhiteSpace and LineTerminator.
\<close>

definition isWhiteSpace :: "nat \<Rightarrow> bool" where
  "isWhiteSpace c \<longleftrightarrow>
     c = 9 \<or> c = 10 \<or> c = 11 \<or> c = 12 \<or> c = 13 \<or> c = 32 \<or> c = 160 \<or> c = 5760 \<or>
     (8192 \<le> c \<and> c \<le> 8202) \<or> c = 8232 \<or> c = 8233 \<or> c = 8239 \<or> c = 8287 \<or>
     c = 12288 \<or> c = 65279"

text \<open>The class \<open>\d\<close>: the ten ASCII digits only.\<close>

definition isDigit :: "nat \<Rightarrow> bool" where
  "isDigit c \<longleftrightarrow> 48 \<le> c \<and> c \<le> 57"

text \<open>\<open>s.trim()\<close>\<close>

definition trim :: "ustring \<Rightarrow> ustring" where
  "trim s = rev (dropWhile isWhiteSpace (rev (dropWhile isWhiteSpace s)))"

text \<open>\<open>s.replace(/\s+/g, '')\<close>: every whitespace code unit is removed.\<close>

definition stripWs :: "ustring \<Rightarrow> ustring" where
  "stripWs s = filter (\<lambda>c. \<not> isWhiteSpace c) s"

text \<open>\<open>s.includes(t)\<close>: \<open>t\<close> occurs in \<open>s\<close> as a contiguous run of code units.\<close>

fun str_includes :: "ustring \<Rightarrow> ustring \<Rightarrow> bool" where
  "str_includes [] t = (t = [])"
| "str_includes (c # cs) t = (prefix t (c # cs) \<or> str_includes cs t)"

text \<open>
  The decimal digits of an integer, as \<open>String(n)\<close> and a template literal give them
  for an integral Number below \<open>10^21\<close> in magnitude.
\<close>

fun natDigits :: "nat \<Rightarrow> ustring" where
  "natDigits n = (if n < 10 then [48 + n] else natDigits (n div 10) @ [48 + n mod 10])"

declare natDigits.simps [simp del]

definition intToString :: "int \<Rightarrow> ustring" where
  "intToString i = (if i < 0 then 45 # natDigits (nat (- i)) else natDigits (nat i))"

text \<open>\<open>s.padStart(2, '0')\<close>\<close>

definition padStart2 :: "ustring \<Rightarrow> ustring" where
  "padStart2 s = replicate (2 - length s) 48 @ s"

section \<open>JavaScript numbers\<close>

text \<open>
  A Number is an IEEE 754 binary64 value. A finite one is represented by its exact
  rational value, and every arithmetic operation rounds its exact result to the nearest
  binary64 value (ties to even) with \<open>toDouble\<close>; \<open>parseFloat\<close> rounds the exact value
  of the decimal literal in the same way. Negative zero is identified with zero: the
  program never divides by a variable and never inspects the sign of a zero.
\<close>

datatype jsnum = NaN | PosInf | NegInf | Fin rat

definition pow2 :: "int \<Rightarrow> rat" where
  "pow2 e = (if 0 \<le> e then 2 ^ nat e else 1 / 2 ^ nat (- e))"

text \<open>For \<open>a > 0\<close>, the exponent \<open>e\<close> with \<open>2^e \<le> a < 2^(e+1)\<close>.\<close>

definition binexp :: "rat \<Rightarrow> int" where
  "binexp a = (let (p, q) = quotient_of a; e0 = bitlen p - bitlen q
               in if pow2 e0 \<le> a then e0 else e0 - 1)"

definition roundHalfEven :: "rat \<Rightarrow> int" where
  "roundHalfEven x = (let f = \<lfloor>x\<rfloor>; d = x - of_int f
     in if d < 1 / 2 then f else if 1 / 2 < d then f + 1 else if even f then f else f + 1)"

definition toDouble :: "rat \<Rightarrow> jsnum" where
  "toDouble q = (if q = 0 then Fin 0 else
     let a = \<bar>q\<bar>; e = max (binexp a) (- 1022); u = pow2 (e - 52);
         r = of_int (roundHalfEven (a / u)) * u
     in if 2 ^ 1024 \<le> r then (if 0 < q then PosInf else NegInf)
        else Fin (if 0 < q then r else - r))"

text \<open>\<open>x + y\<close>, \<open>x - y\<close>, \<open>x * y\<close> and \<open>x / y\<close> on Numbers.\<close>

fun fneg :: "jsnum \<Rightarrow> jsnum" where
  "fneg NaN = NaN"
| "fneg PosInf = NegInf"
| "fneg NegInf = PosInf"
| "fneg (Fin a) = Fin (- a)"

definition fadd :: "jsnum \<Rightarrow> jsnum \<Rightarrow> jsnum" where
  "fadd x y =
     (case x of
        NaN \<Rightarrow> NaN
      | PosInf \<Rightarrow> (case y of NaN \<Rightarrow> NaN | NegInf \<Rightarrow> NaN | _ \<Rightarrow> PosInf)
      | NegInf \<Rightarrow> (case y of NaN \<Rightarrow> NaN | PosInf \<Rightarrow> NaN | _ \<Rightarrow> NegInf)
      | Fin a \<Rightarrow> (case y of Fin b \<Rightarrow> toDouble (a + b) | _ \<Rightarrow> y))"

definition fsub :: "jsnum \<Rightarrow> jsnum \<Rightarrow> jsnum" where
  "fsub x y = fadd x (fneg y)"

text \<open>The sign of a Number: \<open>1\<close>, \<open>-1\<close>, or \<open>0\<close> for a zero and for NaN.\<close>

fun fsign :: "jsnum \<Rightarrow> int" where
  "fsign NaN = 0"
| "fsign PosInf = 1"
| "fsign NegInf = - 1"
| "fsign (Fin a) = (if 0 < a then 1 else if a < 0 then - 1 else 0)"

definition signedInf :: "int \<Rightarrow> jsnum" where
  "signedInf s = (if 0 < s then PosInf else NegInf)"

definition fmul :: "jsnum \<Rightarrow> jsnum \<Rightarrow> jsnum" where
  "fmul x y =
     (if x = NaN \<or> y = NaN then NaN
      else case (x, y) of
        (Fin a, Fin b) \<Rightarrow> toDouble (a * b)
      | _ \<Rightarrow> if fsign x * fsign y = 0 then NaN else signedInf (fsign x * fsign y))"

text \<open>
  Division. A zero divisor is taken as positive zero; the only division of the program
  is by the literal \<open>12\<close>.
\<close>

definition fdiv :: "jsnum \<Rightarrow> jsnum \<Rightarrow> jsnum" where
  "fdiv x y =
     (if x = NaN \<or> y = NaN then NaN
      else case (x, y) of
        (Fin a, Fin b) \<Rightarrow>
          if b = 0 then (if a = 0 then NaN else signedInf (fsign x)) else toDouble (a / b)
      | (Fin a, _) \<Rightarrow> Fin 0
      | (_, Fin b) \<Rightarrow> if b = 0 then x else signedInf (fsign x * fsign y)
      | _ \<Rightarrow> NaN)"

text \<open>\<open>Math.round(x)\<close>: the integer nearest to \<open>x\<close>, a tie going up.\<close>

fun mathRound :: "jsnum \<Rightarrow> jsnum" where
  "mathRound (Fin a) = Fin (of_int \<lfloor>a + 1 / 2\<rfloor>)"
| "mathRound x = x"

text \<open>A Number is falsy when it is NaN or a zero.\<close>

definition numTruthy :: "jsnum \<Rightarrow> bool" where
  "numTruthy n \<longleftrightarrow> n \<noteq> NaN \<and> n \<noteq> Fin 0"

subsection \<open>parseFloat\<close>

definition digitsVal :: "ustring \<Rightarrow> int" where
  "digitsVal ds = foldl (\<lambda>a c. 10 * a + (int c - 48)) 0 ds"

definition pow10 :: "int \<Rightarrow> rat" where
  "pow10 e = (if 0 \<le> e then 10 ^ nat e else 1 / 10 ^ nat (- e))"

text \<open>The exponent part \<open>e[+-]digits\<close> that follows the mantissa, \<open>0\<close> when there is none.\<close>

definition exponentPart :: "ustring \<Rightarrow> int" where
  "exponentPart s =
     (case s of
        [] \<Rightarrow> 0
      | c # r \<Rightarrow>
          if c = 101 \<or> c = 69 then
            (let neg = (case r of [] \<Rightarrow> False | x # _ \<Rightarrow> x = 45);
                 r' = (case r of [] \<Rightarrow> [] | x # t \<Rightarrow> if x = 45 \<or> x = 43 then t else r);
                 ds = takeWhile isDigit r'
             in if ds = [] then 0 else if neg then - digitsVal ds else digitsVal ds)
          else 0)"

text \<open>
  \<open>parseFloat(s)\<close>: leading whitespace is skipped, then the longest prefix that is a
  decimal literal (sign, digits, fraction, exponent, or \<open>Infinity\<close>) is read and rounded
  to a Number; NaN when there is no such prefix.
\<close>

definition parseFloat :: "ustring \<Rightarrow> jsnum" where
  "parseFloat s =
     (let s1 = dropWhile isWhiteSpace s;
          neg = (case s1 of [] \<Rightarrow> False | c # _ \<Rightarrow> c = 45);
          s2 = (case s1 of [] \<Rightarrow> [] | c # r \<Rightarrow> if c = 45 \<or> c = 43 then r else s1)
      in if prefix (asc ''Infinity'') s2 then (if neg then NegInf else PosInf)
         else
           let ip = takeWhile isDigit s2; s3 = dropWhile isDigit s2;
               hasDot = (case s3 of [] \<Rightarrow> False | c # _ \<Rightarrow> c = 46);
               fp = (if hasDot then takeWhile isDigit (tl s3) else []);
               s4 = (if hasDot then dropWhile isDigit (tl s3) else s3)
           in if ip = [] \<and> fp = [] then NaN
              else
                let v = of_int (digitsVal (ip @ fp)) / 10 ^ length fp * pow10 (exponentPart s4)
                in toDouble (if neg then - v else v))"

section \<open>JavaScript values\<close>

text \<open>
  The values a spreadsheet cell, a record field or an argument of the normalizers can
  hold. The workbook is read without \<open>cellDates\<close>, so no cell is a Date object.
\<close>

datatype jsval = VUndefined | VNull | VBool bool | VNum jsnum | VStr ustring

text \<open>Truthiness, as \<open>if (v)\<close>, \<open>!v\<close>, \<open>v ? a : b\<close>, \<open>v && w\<close> and \<open>v || w\<close> test it.\<close>

fun truthy :: "jsval \<Rightarrow> bool" where
  "truthy VUndefined = False"
| "truthy VNull = False"
| "truthy (VBool b) = b"
| "truthy (VNum n) = numTruthy n"
| "truthy (VStr s) = (s \<noteq> [])"

text \<open>
  \<open>String(v)\<close>. The digits of a Number are those of the engine's Number-to-String
  conversion, which is a parameter \<open>ns\<close> of the model.
\<close>

fun toStr :: "(jsnum \<Rightarrow> ustring) \<Rightarrow> jsval \<Rightarrow> ustring" where
  "toStr ns VUndefined = asc ''undefined''"
| "toStr ns VNull = asc ''null''"
| "toStr ns (VBool b) = (if b then asc ''true'' else asc ''false'')"
| "toStr ns (VNum n) = ns n"
| "toStr ns (VStr s) = s"

section \<open>Currency extractor\<close>

text \<open>
  \<open>str.match(/W\s*([\d,]+)/)\<close> with \<open>W\<close> the fullwidth won sign U+FFE6: the first capture
  group of the leftmost match. At an occurrence of the sign the whitespace run and then
  the run of digits and commas are both maximal and their classes are disjoint, so the
  match at a position is unique; it fails when no digit or comma follows.
\<close>

definition isDigitOrComma :: "nat \<Rightarrow> bool" where
  "isDigitOrComma c \<longleftrightarrow> isDigit c \<or> c = 44"

fun wonMatch :: "ustring \<Rightarrow> ustring option" where
  "wonMatch [] = None"
| "wonMatch (c # cs) =
     (if c = 65510 \<and> takeWhile isDigitOrComma (dropWhile isWhiteSpace cs) \<noteq> []
      then Some (takeWhile isDigitOrComma (dropWhile isWhiteSpace cs))
      else wonMatch cs)"

text \<open>
  \<open>/<br\s*\/?>/i\<close> matches at the head of the string. Only \<open>b\<close>, \<open>B\<close>, \<open>r\<close> and \<open>R\<close>
  canonicalise to the letters of the pattern.
\<close>

definition brAt :: "ustring \<Rightarrow> bool" where
  "brAt s =
     (case s of
        a # b # c # rest \<Rightarrow>
          a = 60 \<and> (b = 98 \<or> b = 66) \<and> (c = 114 \<or> c = 82) \<and>
          (let r1 = dropWhile isWhiteSpace rest;
               r2 = (case r1 of [] \<Rightarrow> [] | x # r \<Rightarrow> if x = 47 then r else r1)
           in case r2 of [] \<Rightarrow> False | y # _ \<Rightarrow> y = 62)
      | _ \<Rightarrow> False)"

text \<open>\<open>str.split(/<br\s*\/?>/i)[0]\<close>: the text before the first line-break tag.\<close>

fun beforeBr :: "ustring \<Rightarrow> ustring" where
  "beforeBr [] = []"
| "beforeBr (c # cs) = (if brAt (c # cs) then [] else c # beforeBr cs)"

text \<open>\<open>parseFloat(s) || 0\<close>\<close>

definition orZero :: "jsnum \<Rightarrow> jsnum" where
  "orZero n = (if numTruthy n then n else Fin 0)"

text \<open>The part of \<open>extractKRW\<close> that works on \<open>str = String(value)\<close>.\<close>

definition krwOfString :: "ustring \<Rightarrow> jsnum" where
  "krwOfString str =
     (case wonMatch str of
        Some g \<Rightarrow> orZero (parseFloat (filter (\<lambda>c. c \<noteq> 44) g))
      | None \<Rightarrow>
          orZero (parseFloat (filter (\<lambda>c. isDigit c \<or> c = 46 \<or> c = 45) (beforeBr str))))"

text \<open>
  \<open>Processor.extractKRW(value)\<close>. A Number is returned as it is; a falsy value gives
  \<open>0\<close>; any other value is a non-empty string or \<open>true\<close>, and \<open>String(value)\<close> is the
  string itself or \<open>"true"\<close>.
\<close>

fun extractKRW :: "jsval \<Rightarrow> jsnum" where
  "extractKRW (VNum n) = n"
| "extractKRW (VStr s) = (if s = [] then Fin 0 else krwOfString s)"
| "extractKRW (VBool b) = (if b then krwOfString (asc ''true'') else Fin 0)"
| "extractKRW VNull = Fin 0"
| "extractKRW VUndefined = Fin 0"

section \<open>Arrays\<close>

text \<open>
  \<open>XLSX.utils.sheet_to_json(sheet, {header: 1})\<close> returns one array per row and assigns
  only the columns whose cell holds a value, so a row is a sparse array: an empty cell
  before the last filled one is an empty slot, not an element. An array is a list of
  slots, \<open>None\<close> for an empty slot. \<open>map\<close>, \<open>some\<close>, \<open>every\<close> and \<open>indexOf\<close> skip empty
  slots (\<open>map\<close> keeps them in its result); \<open>findIndex\<close> and \<open>join\<close> visit them as
  \<open>undefined\<close>; \<open>length\<close> and \<open>slice\<close> count them.
\<close>

type_synonym 'a jsarray = "'a option list"

type_synonym row = "jsval jsarray"

text \<open>\<open>arr.map(f)\<close>\<close>

definition arr_map :: "('a \<Rightarrow> 'b) \<Rightarrow> 'a jsarray \<Rightarrow> 'b jsarray" where
  "arr_map f arr = map (map_option f) arr"

text \<open>\<open>arr.some(p)\<close>\<close>

definition arr_some :: "('a \<Rightarrow> bool) \<Rightarrow> 'a jsarray \<Rightarrow> bool" where
  "arr_some p arr = list_ex (\<lambda>e. case e of None \<Rightarrow> False | Some x \<Rightarrow> p x) arr"

text \<open>\<open>row[idx]\<close>: \<open>undefined\<close> at an empty slot and outside the array, so also at \<open>-1\<close>.\<close>

definition arr_get :: "row \<Rightarrow> int \<Rightarrow> jsval" where
  "arr_get r idx =
     (if 0 \<le> idx \<and> idx < int (length r)
      then (case r ! nat idx of None \<Rightarrow> VUndefined | Some v \<Rightarrow> v)
      else VUndefined)"

text \<open>\<open>arr.indexOf(x)\<close>, counted from position \<open>i\<close> of the whole array.\<close>

fun indexOfFrom :: "int \<Rightarrow> 'a jsarray \<Rightarrow> 'a \<Rightarrow> int" where
  "indexOfFrom i [] x = - 1"
| "indexOfFrom i (e # es) x = (if e = Some x then i else indexOfFrom (i + 1) es x)"

definition indexOf :: "'a jsarray \<Rightarrow> 'a \<Rightarrow> int" where
  "indexOf arr x = indexOfFrom 0 arr x"

text \<open>
  \<open>arr.join(',')\<close> of a row: an empty slot, \<open>undefined\<close> and \<open>null\<close> give the empty string,
  any other element its \<open>String\<close>.
\<close>

definition joinElem :: "(jsnum \<Rightarrow> ustring) \<Rightarrow> jsval option \<Rightarrow> ustring" where
  "joinElem ns e =
     (case e of
        None \<Rightarrow> []
      | Some VUndefined \<Rightarrow> []
      | Some VNull \<Rightarrow> []
      | Some v \<Rightarrow> toStr ns v)"

fun joinComma :: "(jsnum \<Rightarrow> ustring) \<Rightarrow> row \<Rightarrow> ustring" where
  "joinComma ns [] = []"
| "joinComma ns [e] = joinElem ns e"
| "joinComma ns (e # es) = joinElem ns e @ 44 # joinComma ns es"

section \<open>Source definitions and the router\<close>

text \<open>
  A logical field of a mapping is configured with one header name or with an ordered
  array of names; a field the mapping does not have reads as \<open>undefined\<close> (\<open>None\<close>).
\<close>

datatype fieldName = Single ustring | Multi "ustring list"

record mapping =
  m_date :: "fieldName option"
  m_time :: "fieldName option"
  m_raw_description :: "fieldName option"
  m_amount :: "fieldName option"
  m_amount_alt :: "fieldName option"
  m_net_payment :: "fieldName option"
  m_total_deduction :: "fieldName option"
  m_employee_name :: "fieldName option"

record sourceDef =
  d_type :: ustring
  d_name :: ustring
  signatures :: "ustring list"
  d_mapping :: mapping

text \<open>
  A workbook: the sheet names in their declared order, each with the rows that
  \<open>sheet_to_json\<close> returns for the sheet of that name.
\<close>

type_synonym workbook = "(ustring \<times> row list) list"

record sourceInfo =
  si_def :: sourceDef
  headerRow :: "ustring jsarray"
  headerIndex :: nat
  sheetName :: ustring
  jsonData :: "row list"

text \<open>
  The result of \<open>identifySource\<close>: the located definition, or no definition and the
  \<open>debugHeader\<close> probe.
\<close>

datatype identification = Identified sourceInfo | NotIdentified ustring

text \<open>\<open>jsonData[i].map(c => c ? String(c).trim() : '')\<close>\<close>

definition trimmedRow :: "(jsnum \<Rightarrow> ustring) \<Rightarrow> row \<Rightarrow> ustring jsarray" where
  "trimmedRow ns r = arr_map (\<lambda>c. if truthy c then trim (toStr ns c) else []) r"

text \<open>\<open>row.map(r => r.replace(/\s+/g, ''))\<close>\<close>

definition cleanRow :: "ustring jsarray \<Rightarrow> ustring jsarray" where
  "cleanRow r = arr_map stripWs r"

text \<open>
  \<open>signatures.every(sig => cleanRow.some(cell => cell.includes(sig.replace(/\s+/g, ''))))\<close>
\<close>

definition isMatch :: "ustring jsarray \<Rightarrow> ustring list \<Rightarrow> bool" where
  "isMatch cr sigs = list_all (\<lambda>sig. arr_some (\<lambda>cell. str_includes cell (stripWs sig)) cr) sigs"

text \<open>
  The loop over the definitions for one row: the first definition that matches on a
  row with at least as many columns as the definition has signature keywords.
\<close>

fun scanDefs :: "ustring jsarray \<Rightarrow> sourceDef list \<Rightarrow> sourceDef option" where
  "scanDefs r [] = None"
| "scanDefs r (d # ds) =
     (if isMatch (cleanRow r) (signatures d)
      then (if length r < length (signatures d) then scanDefs r ds else Some d)
      else scanDefs r ds)"

text \<open>The loop over the rows \<open>i, i + 1, ...\<close> of one sheet.\<close>

fun scanRows ::
  "(jsnum \<Rightarrow> ustring) \<Rightarrow> sourceDef list \<Rightarrow> nat \<Rightarrow> row list \<Rightarrow>
   (sourceDef \<times> ustring jsarray \<times> nat) option" where
  "scanRows ns defs i [] = None"
| "scanRows ns defs i (r # rs) =
     (case scanDefs (trimmedRow ns r) defs of
        Some d \<Rightarrow> Some (d, trimmedRow ns r, i)
      | None \<Rightarrow> scanRows ns defs (Suc i) rs)"

definition MAX_SEARCH_ROWS :: nat where
  "MAX_SEARCH_ROWS = 500"

text \<open>The loop over the sheets. A sheet without rows is skipped by the same loop.\<close>

fun scanSheets :: "(jsnum \<Rightarrow> ustring) \<Rightarrow> sourceDef list \<Rightarrow> workbook \<Rightarrow> sourceInfo option" where
  "scanSheets ns defs [] = None"
| "scanSheets ns defs ((name, rows) # wb) =
     (case scanRows ns defs 0 (take MAX_SEARCH_ROWS rows) of
        Some (d, hr, i) \<Rightarrow>
          Some \<lparr>si_def = d, headerRow = hr, headerIndex = i, sheetName = name, jsonData = rows\<rparr>
      | None \<Rightarrow> scanSheets ns defs wb)"

text \<open>
  The probe of a failed identification. For a workbook without sheets
  \<open>workbook.Sheets[undefined]\<close> is \<open>undefined\<close>, for which \<open>sheet_to_json\<close> returns no rows.
\<close>

definition debugHeader :: "(jsnum \<Rightarrow> ustring) \<Rightarrow> workbook \<Rightarrow> ustring" where
  "debugHeader ns wb =
     (let firstJson = (case wb of [] \<Rightarrow> [] | (name, rows) # _ \<Rightarrow> rows)
      in case firstJson of
           [] \<Rightarrow> asc ''EMPTY''
         | firstRow # _ \<Rightarrow> joinComma ns (take 10 firstRow))"

text \<open>\<open>Router.identifySource(filename, workbook)\<close>, with the catalog \<open>this.definitions\<close>.\<close>

definition identifySource ::
  "(jsnum \<Rightarrow> ustring) \<Rightarrow> sourceDef list \<Rightarrow> ustring \<Rightarrow> workbook \<Rightarrow> identification" where
  "identifySource ns defs filename wb =
     (case scanSheets ns defs wb of
        Some info \<Rightarrow> Identified info
      | None \<Rightarrow> NotIdentified (debugHeader ns wb))"

subsection \<open>Identification as the specification words it\<close>

text \<open>
  The text of a cell for matching: the trimmed \<open>String\<close> of the cell; a falsy cell (an
  empty string, \<open>0\<close>, \<open>false\<close>, \<open>null\<close>) counts as the empty string.
\<close>

definition cellText :: "(jsnum \<Rightarrow> ustring) \<Rightarrow> jsval \<Rightarrow> ustring" where
  "cellText ns c = (if truthy c then trim (toStr ns c) else [])"

text \<open>
  A signature keyword is found in a row when, stripped of all whitespace, it is a
  contiguous part of the whitespace-stripped text of some cell of the row.
\<close>

definition sigInRow :: "(jsnum \<Rightarrow> ustring) \<Rightarrow> row \<Rightarrow> ustring \<Rightarrow> bool" where
  "sigInRow ns r sig =
     list_ex (\<lambda>e. case e of
                     None \<Rightarrow> False
                   | Some c \<Rightarrow> sublist (stripWs sig) (stripWs (cellText ns c))) r"

text \<open>
  A row is accepted for a definition when every signature keyword is found in it and
  the row has at least as many columns as the definition has signature keywords.
\<close>

definition accepted :: "(jsnum \<Rightarrow> ustring) \<Rightarrow> row \<Rightarrow> sourceDef \<Rightarrow> bool" where
  "accepted ns r d \<longleftrightarrow>
     list_all (sigInRow ns r) (signatures d) \<and> \<not> length r < length (signatures d)"

text \<open>
  The candidates in the order of the search: the sheets in declared order, in each
  sheet its first 500 rows from the top, for each row the definitions in catalog order.
\<close>

definition rowCandidates :: "sourceDef list \<Rightarrow> nat \<Rightarrow> row list \<Rightarrow> (nat \<times> row \<times> sourceDef) list" where
  "rowCandidates defs i rows =
     concat (map (\<lambda>(j, r). map (\<lambda>d. (j, r, d)) defs) (enumerate i rows))"

definition candidates ::
  "sourceDef list \<Rightarrow> workbook \<Rightarrow> (ustring \<times> row list \<times> nat \<times> row \<times> sourceDef) list" where
  "candidates defs wb =
     concat (map (\<lambda>(name, rows).
                    map (\<lambda>(j, r, d). (name, rows, j, r, d))
                      (rowCandidates defs 0 (take 500 rows))) wb)"

text \<open>The first accepted candidate decides; without one the result is the probe.\<close>

definition identifySource_spec ::
  "(jsnum \<Rightarrow> ustring) \<Rightarrow> sourceDef list \<Rightarrow> workbook \<Rightarrow> identification" where
  "identifySource_spec ns defs wb =
     (case find (\<lambda>(name, rows, j, r, d). accepted ns r d) (candidates defs wb) of
        None \<Rightarrow> NotIdentified (debugHeader ns wb)
      | Some (name, rows, j, r, d) \<Rightarrow>
          Identified \<lparr>si_def = d, headerRow = trimmedRow ns r, headerIndex = j,
                      sheetName = name, jsonData = rows\<rparr>)"

section \<open>Field mapper\<close>

datatype error = TypeError

text \<open>
  \<open>headerRow.findIndex(h => p(h))\<close> for a callback that calls a string method on \<open>h\<close>:
  at an empty slot \<open>h\<close> is \<open>undefined\<close> and the call raises a \<open>TypeError\<close>.
\<close>

fun findIndexFrom :: "int \<Rightarrow> (ustring \<Rightarrow> bool) \<Rightarrow> ustring jsarray \<Rightarrow> error + int" where
  "findIndexFrom i p [] = Inr (- 1)"
| "findIndexFrom i p (None # es) = Inl TypeError"
| "findIndexFrom i p (Some h # es) = (if p h then Inr i else findIndexFrom (i + 1) p es)"

definition findIndex :: "(ustring \<Rightarrow> bool) \<Rightarrow> ustring jsarray \<Rightarrow> error + int" where
  "findIndex p arr = findIndexFrom 0 p arr"

text \<open>The three strategies of \<open>getColIdx\<close> for one target name.\<close>

definition colOfTarget :: "ustring jsarray \<Rightarrow> ustring \<Rightarrow> error + int" where
  "colOfTarget hr target =
     (if indexOf hr target \<noteq> - 1 then Inr (indexOf hr target)
      else case findIndex (\<lambda>h. stripWs h = stripWs target) hr of
        Inl e \<Rightarrow> Inl e
      | Inr idx \<Rightarrow>
          if idx \<noteq> - 1 then Inr idx
          else case findIndex (\<lambda>h. str_includes h target) hr of
            Inl e \<Rightarrow> Inl e
          | Inr idx' \<Rightarrow> Inr idx')"

text \<open>The loop \<open>for (const target of targetCols)\<close>.\<close>

fun colOfTargets :: "ustring jsarray \<Rightarrow> ustring list \<Rightarrow> error + int" where
  "colOfTargets hr [] = Inr (- 1)"
| "colOfTargets hr (target # ts) =
     (case colOfTarget hr target of
        Inl e \<Rightarrow> Inl e
      | Inr idx \<Rightarrow> if idx \<noteq> - 1 then Inr idx else colOfTargets hr ts)"

text \<open>
  \<open>fieldName ? (Array.isArray(fieldName) ? fieldName : [fieldName]) : []\<close>: an absent
  name and the empty string are falsy.
\<close>

definition targetCols :: "fieldName option \<Rightarrow> ustring list" where
  "targetCols fieldName =
     (case fieldName of
        None \<Rightarrow> []
      | Some (Single s) \<Rightarrow> (if s = [] then [] else [s])
      | Some (Multi ss) \<Rightarrow> ss)"

text \<open>\<open>getColIdx\<close> of \<open>normalizeData\<close>, over the header row of the identification.\<close>

definition getColIdx :: "ustring jsarray \<Rightarrow> fieldName option \<Rightarrow> error + int" where
  "getColIdx hr fieldName = colOfTargets hr (targetCols fieldName)"

subsection \<open>Resolution over a header row without empty slots\<close>

text \<open>The position of the first element that satisfies \<open>P\<close>, or \<open>-1\<close>.\<close>

definition firstIndexWhere :: "('a \<Rightarrow> bool) \<Rightarrow> 'a list \<Rightarrow> int" where
  "firstIndexWhere P xs =
     (if list_ex P xs then int (length (takeWhile (\<lambda>x. \<not> P x) xs)) else - 1)"

text \<open>
  One candidate name: exact equality, else equality after stripping whitespace, else
  containment of the name in a header cell.
\<close>

definition resolveTarget :: "ustring list \<Rightarrow> ustring \<Rightarrow> int" where
  "resolveTarget hs t =
     (if t \<in> set hs then firstIndexWhere (\<lambda>h. h = t) hs
      else if list_ex (\<lambda>h. stripWs h = stripWs t) hs
      then firstIndexWhere (\<lambda>h. stripWs h = stripWs t) hs
      else firstIndexWhere (\<lambda>h. sublist t h) hs)"

text \<open>The candidates in their order: the first one that resolves at all decides.\<close>

fun resolveField :: "ustring list \<Rightarrow> ustring list \<Rightarrow> int" where
  "resolveField hs [] = - 1"
| "resolveField hs (t # ts) =
     (if resolveTarget hs t \<noteq> - 1 then resolveTarget hs t else resolveField hs ts)"

section \<open>Date normalizer\<close>

text \<open>
  What the engine and the clock supply: the Number-to-String conversion, \<open>Date.parse\<close>
  (a time value in milliseconds, or NaN), the offset of local time from UTC at a time
  value (in milliseconds), \<open>String.prototype.toLowerCase\<close>, the time value of \<open>new Date()\<close>
  and the results of the successive calls of \<open>crypto.randomUUID()\<close>.
\<close>

record env =
  numToString :: "jsnum \<Rightarrow> ustring"
  dateParse :: "ustring \<Rightarrow> jsnum"
  localTZA :: "int \<Rightarrow> int"
  toLowerCase :: "ustring \<Rightarrow> ustring"
  now :: int
  randomUUID :: "nat \<Rightarrow> ustring"

text \<open>
  The time value of \<open>new Date(x)\<close> for a Number \<open>x\<close>: \<open>None\<close> (an invalid date) unless \<open>x\<close>
  is finite and at most \<open>8.64e15\<close> in magnitude, else \<open>x\<close> truncated to an integer.
\<close>

definition timeClip :: "jsnum \<Rightarrow> int option" where
  "timeClip x =
     (case x of
        Fin a \<Rightarrow>
          if 8640000000000000 < \<bar>a\<bar> then None
          else Some (if 0 \<le> a then \<lfloor>a\<rfloor> else \<lceil>a\<rceil>)
      | _ \<Rightarrow> None)"

text \<open>Year, month (from 1) and day of the month of a day number counted from 1970-01-01.\<close>

definition ymdOfDay :: "int \<Rightarrow> int \<times> int \<times> int" where
  "ymdOfDay day =
     (let z = day + 719468;
          era = z div 146097;
          doe = z mod 146097;
          yoe = (doe - doe div 1460 + doe div 36524 - doe div 146096) div 365;
          doy = doe - (365 * yoe + yoe div 4 - yoe div 100);
          mp = (5 * doy + 2) div 153;
          d = doy - (153 * mp + 2) div 5 + 1;
          m = (if mp < 10 then mp + 3 else mp - 9);
          y = yoe + era * 400
      in (if m \<le> 2 then y + 1 else y, m, d))"

text \<open>
  The template \<open>`${year}-${month}-${day}`\<close> over \<open>getFullYear()\<close>,
  \<open>String(getMonth() + 1).padStart(2, '0')\<close> and \<open>String(getDate()).padStart(2, '0')\<close>,
  which read the local time; on an invalid date every getter returns NaN.
\<close>

definition ymdString :: "(int \<Rightarrow> int) \<Rightarrow> int option \<Rightarrow> ustring" where
  "ymdString tza tv =
     (case tv of
        None \<Rightarrow> asc ''NaN-NaN-NaN''
      | Some t \<Rightarrow>
          (case ymdOfDay ((t + tza t) div 86400000) of
             (y, m, d) \<Rightarrow>
               intToString y @ 45 # padStart2 (intToString m) @ 45 # padStart2 (intToString d)))"

text \<open>\<open>/^\d{8}$/.test(str)\<close> and \<open>/^\d{4}-\d{2}-\d{2}$/.test(str)\<close>\<close>

definition isEightDigits :: "ustring \<Rightarrow> bool" where
  "isEightDigits str \<longleftrightarrow> length str = 8 \<and> list_all isDigit str"

definition isIsoDate :: "ustring \<Rightarrow> bool" where
  "isIsoDate str \<longleftrightarrow>
     length str = 10 \<and> list_all isDigit (take 4 str) \<and> str ! 4 = 45 \<and>
     list_all isDigit (take 2 (drop 5 str)) \<and> str ! 7 = 45 \<and> list_all isDigit (drop 8 str)"

text \<open>
  The cleaned string: \<open>String(d).trim()\<close>, then \<open>split(/[\sT]+/)[0]\<close>, the text before the
  first whitespace or capital \<open>T\<close>, then \<open>.\<close> and \<open>/\<close> replaced by \<open>-\<close>.
\<close>

definition cleanDate :: "ustring \<Rightarrow> ustring" where
  "cleanDate s =
     map (\<lambda>c. if c = 46 \<or> c = 47 then 45 else c)
       (takeWhile (\<lambda>c. \<not> isWhiteSpace c \<and> c \<noteq> 84) (trim s))"

definition formatDateString :: "env \<Rightarrow> ustring \<Rightarrow> ustring" where
  "formatDateString ev s =
     (let str = cleanDate s
      in if isEightDigits str
         then take 4 str @ 45 # take 2 (drop 4 str) @ 45 # take 2 (drop 6 str)
         else if isIsoDate str then str
         else if dateParse ev str \<noteq> NaN
         then ymdString (localTZA ev) (timeClip (dateParse ev str))
         else str)"

text \<open>The argument of \<open>formatDate\<close>: a Date object with its time value, or a cell value.\<close>

datatype dateArg = DateObj "int option" | Val jsval

text \<open>
  \<open>Processor.formatDate(d)\<close>. A falsy value gives the empty string, a Date object its
  local date, a Number is taken as a spreadsheet serial date, and any other value is
  parsed as a string.
\<close>

fun formatDate :: "env \<Rightarrow> dateArg \<Rightarrow> ustring" where
  "formatDate ev (DateObj tv) = ymdString (localTZA ev) tv"
| "formatDate ev (Val (VNum n)) =
     (if \<not> numTruthy n then []
      else ymdString (localTZA ev)
             (timeClip (mathRound (fmul (fmul (fsub n (Fin 25569)) (Fin 86400)) (Fin 1000)))))"
| "formatDate ev (Val (VStr s)) = (if s = [] then [] else formatDateString ev s)"
| "formatDate ev (Val (VBool b)) = (if b then formatDateString ev (asc ''true'') else [])"
| "formatDate ev (Val VNull) = []"
| "formatDate ev (Val VUndefined) = []"

section \<open>Transaction records\<close>

text \<open>
  The derived display fields do not exist before classification; a missing property
  reads as \<open>undefined\<close>.
\<close>

record entry =
  entry_id :: ustring
  date :: ustring
  time :: jsval
  amount :: jsval
  raw_description :: ustring
  item :: ustring
  category_detail :: ustring
  category_main :: ustring
  category_mso :: ustring
  raw_source :: ustring
  raw_filename :: ustring
  display_date :: jsval
  col_transfer :: jsval
  col_account :: jsval
  col_cash :: jsval
  col_card :: jsval
  col_card_detail :: jsval

section \<open>Row-wise normalizer\<close>

text \<open>The five column indices that \<open>normalizeData\<close> resolves once per file.\<close>

record columns =
  idxDate :: int
  idxTime :: int
  idxDesc :: int
  idxAmtMain :: int
  idxAmtAlt :: int

definition resolveColumns :: "ustring jsarray \<Rightarrow> mapping \<Rightarrow> error + columns" where
  "resolveColumns hr mp =
     (case getColIdx hr (m_date mp) of Inl e \<Rightarrow> Inl e | Inr iDate \<Rightarrow>
      case getColIdx hr (m_time mp) of Inl e \<Rightarrow> Inl e | Inr iTime \<Rightarrow>
      case getColIdx hr (m_raw_description mp) of Inl e \<Rightarrow> Inl e | Inr iDesc \<Rightarrow>
      case getColIdx hr (m_amount mp) of Inl e \<Rightarrow> Inl e | Inr iMain \<Rightarrow>
      case getColIdx hr (m_amount_alt mp) of Inl e \<Rightarrow> Inl e | Inr iAlt \<Rightarrow>
        Inr \<lparr>idxDate = iDate, idxTime = iTime, idxDesc = iDesc,
             idxAmtMain = iMain, idxAmtAlt = iAlt\<rparr>)"

text \<open>The amount cell of a row: the main column, else the alternate one, else \<open>0\<close>.\<close>

definition rawAmount :: "columns \<Rightarrow> row \<Rightarrow> jsval" where
  "rawAmount cols r =
     (if idxAmtMain cols \<noteq> - 1 \<and> truthy (arr_get r (idxAmtMain cols))
      then arr_get r (idxAmtMain cols)
      else if idxAmtAlt cols \<noteq> - 1 \<and> truthy (arr_get r (idxAmtAlt cols))
      then arr_get r (idxAmtAlt cols)
      else VNum (Fin 0))"

text \<open>
  The record pushed for a row, given the cleaning applied to the amount; \<open>k\<close> counts
  the identifiers drawn so far.
\<close>

definition rowEntry ::
  "env \<Rightarrow> (jsval \<Rightarrow> jsval) \<Rightarrow> ustring \<Rightarrow> sourceDef \<Rightarrow> columns \<Rightarrow> nat \<Rightarrow> row \<Rightarrow> entry" where
  "rowEntry ev clean filename df cols k r =
     \<lparr>entry_id = randomUUID ev k,
      date = formatDate ev (Val (arr_get r (idxDate cols))),
      time = (if idxTime cols \<noteq> - 1 \<and> truthy (arr_get r (idxTime cols))
              then arr_get r (idxTime cols) else VStr []),
      amount = clean (rawAmount cols r),
      raw_description =
        (if idxDesc cols \<noteq> - 1 \<and> truthy (arr_get r (idxDesc cols))
         then trim (toStr (numToString ev) (arr_get r (idxDesc cols))) else []),
      item = [],
      category_detail = [],
      category_main = [],
      category_mso = [],
      raw_source = d_name df,
      raw_filename = filename,
      display_date = VUndefined,
      col_transfer = VUndefined,
      col_account = VUndefined,
      col_cash = VUndefined,
      col_card = VUndefined,
      col_card_detail = VUndefined\<rparr>"

text \<open>
  The loop over the rows below the header: an empty row and a row without a date
  value are skipped.
\<close>

fun normalizeRows ::
  "env \<Rightarrow> (jsval \<Rightarrow> jsval) \<Rightarrow> ustring \<Rightarrow> sourceDef \<Rightarrow> columns \<Rightarrow> nat \<Rightarrow> row list \<Rightarrow> entry list"
  where
  "normalizeRows ev clean filename df cols k [] = []"
| "normalizeRows ev clean filename df cols k (r # rs) =
     (if r = [] then normalizeRows ev clean filename df cols k rs
      else if \<not> truthy (arr_get r (idxDate cols))
      then normalizeRows ev clean filename df cols k rs
      else rowEntry ev clean filename df cols k r
             # normalizeRows ev clean filename df cols (Suc k) rs)"

text \<open>
  \<open>Processor.normalizeData(filename, jsonData, sourceInfo)\<close> of \<open>processor.js\<close>: the
  amount is cleaned by \<open>extractKRW\<close>.
\<close>

definition normalizeData :: "env \<Rightarrow> ustring \<Rightarrow> row list \<Rightarrow> sourceInfo \<Rightarrow> error + entry list" where
  "normalizeData ev filename jd info =
     (case resolveColumns (headerRow info) (d_mapping (si_def info)) of
        Inl e \<Rightarrow> Inl e
      | Inr cols \<Rightarrow>
          Inr (normalizeRows ev (\<lambda>v. VNum (extractKRW v)) filename (si_def info) cols 0
                 (drop (Suc (headerIndex info)) jd)))"

text \<open>
  The earlier \<open>normalizeData\<close>, which cleans the amount inline:
  \<open>if (typeof valAmount === 'string') valAmount = parseFloat(valAmount.replace(/[^0-9.-]/g, '')) || 0\<close>.
\<close>

definition cleanInline :: "jsval \<Rightarrow> jsval" where
  "cleanInline v =
     (case v of
        VStr s \<Rightarrow> VNum (orZero (parseFloat (filter (\<lambda>c. isDigit c \<or> c = 46 \<or> c = 45) s)))
      | _ \<Rightarrow> v)"

definition normalizeData_inline ::
  "env \<Rightarrow> ustring \<Rightarrow> row list \<Rightarrow> sourceInfo \<Rightarrow> error + entry list" where
  "normalizeData_inline ev filename jd info =
     (case resolveColumns (headerRow info) (d_mapping (si_def info)) of
        Inl e \<Rightarrow> Inl e
      | Inr cols \<Rightarrow>
          Inr (normalizeRows ev cleanInline filename (si_def info) cols 0
                 (drop (Suc (headerIndex info)) jd)))"

text \<open>An amount cell that holds a Number or is empty (no cell, \<open>null\<close>, or the empty string).\<close>

fun numericOrEmpty :: "jsval \<Rightarrow> bool" where
  "numericOrEmpty (VNum n) = True"
| "numericOrEmpty VUndefined = True"
| "numericOrEmpty VNull = True"
| "numericOrEmpty (VStr s) = (s = [])"
| "numericOrEmpty (VBool b) = False"

text \<open>A record without its generated identifier.\<close>

definition withoutId :: "entry \<Rightarrow> entry" where
  "withoutId e = e\<lparr>entry_id := []\<rparr>"

section \<open>Payroll-summary normalizer\<close>

text \<open>
  \<open>getColIdx\<close> of \<open>normalizeSalarySummary\<close>: it takes one name and calls \<open>replace\<close> on
  it, so an array of names raises a \<open>TypeError\<close>.
\<close>

definition getColIdx_salary :: "ustring jsarray \<Rightarrow> fieldName option \<Rightarrow> error + int" where
  "getColIdx_salary hr fieldName =
     (case fieldName of
        None \<Rightarrow> Inr (- 1)
      | Some (Single s) \<Rightarrow> (if s = [] then Inr (- 1) else colOfTarget hr s)
      | Some (Multi ss) \<Rightarrow> Inl TypeError)"

text \<open>The totals marker, U+D569 U+ACC4.\<close>

definition totalMarker :: ustring where
  "totalMarker = [54633, 44228]"

text \<open>The callback of \<open>row.some\<close>: the cell, as a trimmed and stripped string, holds the marker.\<close>

definition cellHasTotal :: "(jsnum \<Rightarrow> ustring) \<Rightarrow> jsval \<Rightarrow> bool" where
  "cellHasTotal ns cell \<longleftrightarrow>
     truthy cell \<and>
     (str_includes (stripWs (trim (toStr ns cell))) totalMarker \<or>
      stripWs (trim (toStr ns cell)) = totalMarker)"

text \<open>The loop that looks for the totals row below the header.\<close>

fun findTotalRow :: "(jsnum \<Rightarrow> ustring) \<Rightarrow> row list \<Rightarrow> row option" where
  "findTotalRow ns [] = None"
| "findTotalRow ns (r # rs) =
     (if r = [] then findTotalRow ns rs
      else if arr_some (cellHasTotal ns) r then Some r
      else findTotalRow ns rs)"

text \<open>\<open>v || 0\<close>\<close>

definition orZeroV :: "jsval \<Rightarrow> jsval" where
  "orZeroV v = (if truthy v then v else VNum (Fin 0))"

text \<open>The fixed labels of the three entries.\<close>

definition label_personnel_spaced :: ustring where
  "label_personnel_spaced = [51649, 50896, 32, 51064, 44148, 48708]"

definition label_personnel :: ustring where
  "label_personnel = [51649, 50896, 51064, 44148, 48708]"

definition label_income_tax :: ustring where
  "label_income_tax = [51649, 50896, 49548, 46301, 49464]"

definition label_pension :: ustring where
  "label_pension = [51649, 50896, 32, 53748, 51649, 50672, 44552]"

definition label_mso :: ustring where
  "label_mso = [77, 83, 79, 51064, 51221, 44221, 48708]"

definition salaryEntry ::
  "env \<Rightarrow> ustring \<Rightarrow> sourceDef \<Rightarrow> nat \<Rightarrow> jsnum \<Rightarrow> ustring \<Rightarrow> ustring \<Rightarrow> entry" where
  "salaryEntry ev filename df k amt description itm =
     \<lparr>entry_id = randomUUID ev k,
      date = formatDate ev (DateObj (Some (now ev))),
      time = VStr [],
      amount = VNum amt,
      raw_description = description,
      item = itm,
      category_detail = [],
      category_main = label_personnel,
      category_mso = label_mso,
      raw_source = d_name df,
      raw_filename = filename,
      display_date = VUndefined,
      col_transfer = VUndefined,
      col_account = VUndefined,
      col_cash = VUndefined,
      col_card = VUndefined,
      col_card_detail = VUndefined\<rparr>"

text \<open>\<open>Processor.normalizeSalarySummary(filename, jsonData, sourceInfo)\<close>\<close>

definition normalizeSalarySummary ::
  "env \<Rightarrow> ustring \<Rightarrow> row list \<Rightarrow> sourceInfo \<Rightarrow> error + entry list" where
  "normalizeSalarySummary ev filename jd info =
     (let hr = headerRow info; mp = d_mapping (si_def info) in
      case getColIdx_salary hr (m_net_payment mp) of Inl e \<Rightarrow> Inl e | Inr idxNetPayment \<Rightarrow>
      case getColIdx_salary hr (m_total_deduction mp) of Inl e \<Rightarrow> Inl e | Inr idxTotalDeduction \<Rightarrow>
      case getColIdx_salary hr (m_employee_name mp) of Inl e \<Rightarrow> Inl e | Inr idxEmployeeName \<Rightarrow>
      case findTotalRow (numToString ev) (drop (Suc (headerIndex info)) jd) of
        None \<Rightarrow> Inr []
      | Some totalRow \<Rightarrow>
          (let netPaymentValue = extractKRW (orZeroV (arr_get totalRow idxNetPayment));
               totalDeductionValue = extractKRW (orZeroV (arr_get totalRow idxTotalDeduction));
               retirementPension = fdiv (fadd netPaymentValue totalDeductionValue) (Fin 12)
           in Inr [salaryEntry ev filename (si_def info) 0 netPaymentValue
                     label_personnel_spaced label_personnel,
                   salaryEntry ev filename (si_def info) 1 totalDeductionValue
                     label_income_tax label_income_tax,
                   salaryEntry ev filename (si_def info) 2 retirementPension
                     label_pension label_pension]))"

section \<open>Classifier\<close>

text \<open>
  A classification rule. A field that \<open>updates\<close> does not have reads as \<open>undefined\<close>
  (\<open>None\<close>); a rule may have no \<open>updates\<close> at all.
\<close>

record updates =
  u_item :: "ustring option"
  u_description_out :: "ustring option"
  u_category_detail :: "ustring option"
  u_category_main :: "ustring option"
  u_category_mso :: "ustring option"

record rule =
  r_keywords :: "ustring list"
  r_updates :: "updates option"

text \<open>\<open>keywords.some(k => desc.includes(k.toLowerCase()))\<close> with \<open>desc = entry.raw_description.toLowerCase()\<close>\<close>

definition ruleMatches :: "(ustring \<Rightarrow> ustring) \<Rightarrow> entry \<Rightarrow> rule \<Rightarrow> bool" where
  "ruleMatches lc e r \<longleftrightarrow> list_ex (\<lambda>k. str_includes (lc (raw_description e)) (lc k)) (r_keywords r)"

text \<open>The body of \<open>if (rule.updates)\<close>, one field after the other.\<close>

definition applyUpdates :: "updates \<Rightarrow> entry \<Rightarrow> entry" where
  "applyUpdates u e =
     (let e1 = (case u_item u of None \<Rightarrow> e | Some v \<Rightarrow> e\<lparr>item := v\<rparr>);
          e2 = (case u_description_out u of
                  None \<Rightarrow> e1
                | Some v \<Rightarrow> if item e1 = [] then e1\<lparr>item := v\<rparr> else e1);
          e3 = (case u_category_detail u of None \<Rightarrow> e2 | Some v \<Rightarrow> e2\<lparr>category_detail := v\<rparr>);
          e4 = (case u_category_main u of None \<Rightarrow> e3 | Some v \<Rightarrow> e3\<lparr>category_main := v\<rparr>)
      in (case u_category_mso u of None \<Rightarrow> e4 | Some v \<Rightarrow> e4\<lparr>category_mso := v\<rparr>))"

definition applyRule :: "rule \<Rightarrow> entry \<Rightarrow> entry" where
  "applyRule r e = (case r_updates r of None \<Rightarrow> e | Some u \<Rightarrow> applyUpdates u e)"

text \<open>The loop over the rules for one entry, left by \<open>break\<close> at the first match.\<close>

fun applyRules :: "(ustring \<Rightarrow> ustring) \<Rightarrow> rule list \<Rightarrow> entry \<Rightarrow> entry" where
  "applyRules lc [] e = e"
| "applyRules lc (r # rs) e = (if ruleMatches lc e r then applyRule r e else applyRules lc rs e)"

text \<open>The card marker U+CE74 U+B4DC and the account marker U+ACC4 U+C88C.\<close>

definition cardMarker :: ustring where
  "cardMarker = [52852, 46300]"

definition accountMarker :: ustring where
  "accountMarker = [44228, 51340]"

text \<open>The second loop of \<open>classifyData\<close>: the derived columns of one entry.\<close>

definition deriveColumns :: "entry \<Rightarrow> entry" where
  "deriveColumns e =
     (let isCard = str_includes (raw_source e) cardMarker;
          isAccount = str_includes (raw_source e) accountMarker;
          e0 = e\<lparr>display_date := VStr (date e), col_transfer := VStr [], col_account := VStr [],
                 col_cash := VStr [], col_card := VStr [], col_card_detail := VStr []\<rparr>
      in if isCard then e0\<lparr>col_card := amount e, col_card_detail := VStr (raw_source e)\<rparr>
         else if isAccount then e0\<lparr>col_account := VStr (raw_source e), col_transfer := amount e\<rparr>
         else e0\<lparr>col_cash := amount e\<rparr>)"

text \<open>
  \<open>Processor.classifyData(data)\<close>, with the catalog \<open>window.CLASSIFICATION_RULES\<close>, which
  may be missing.
\<close>

definition classifyData :: "(ustring \<Rightarrow> ustring) \<Rightarrow> rule list option \<Rightarrow> entry list \<Rightarrow> entry list" where
  "classifyData lc rules data =
     map deriveColumns
       (case rules of None \<Rightarrow> data | Some rs \<Rightarrow> map (applyRules lc rs) data)"

section \<open>The per-file pipeline\<close>

text \<open>
  What \<open>processFile\<close> resolves to: the single failure record with the file name and the
  message, or the classified records.
\<close>

datatype fileResult = IdentFailure ustring ustring | Processed "entry list"

text \<open>The message of the failure record around the probe, and the payroll type tag.\<close>

definition failureMsg :: "ustring \<Rightarrow> ustring" where
  "failureMsg probe =
     [49885, 48324, 32, 49892, 54056, 46, 32, 54756, 45908, 58, 32, 91] @ probe @ [93]"

definition salary_summary :: ustring where
  "salary_summary = asc ''salary_summary''"

text \<open>
  \<open>Processor.processFile\<close> from the workbook that \<open>XLSX.read\<close> returns on: identification,
  normalization, classification. \<open>Inl\<close> is the rejection of the promise by a raised error.
\<close>

definition processFile ::
  "env \<Rightarrow> sourceDef list \<Rightarrow> rule list option \<Rightarrow> ustring \<Rightarrow> workbook \<Rightarrow> error + fileResult" where
  "processFile ev defs rules filename wb =
     (case identifySource (numToString ev) defs filename wb of
        NotIdentified probe \<Rightarrow> Inr (IdentFailure filename (failureMsg probe))
      | Identified info \<Rightarrow>
          (case (if d_type (si_def info) = salary_summary
                 then normalizeSalarySummary ev filename (jsonData info) info
                 else normalizeData ev filename (jsonData info) info) of
             Inl e \<Rightarrow> Inl e
           | Inr normalizedData \<Rightarrow>
               Inr (Processed (classifyData (toLowerCase ev) rules normalizedData))))"

section \<open>HTML repair filter\<close>

text \<open>
  \<open><td\<close> and \<open></tr>\<close> at the head of the text, under the \<open>i\<close> flag: only \<open>t\<close>, \<open>T\<close>, \<open>d\<close>,
  \<open>D\<close>, \<open>r\<close> and \<open>R\<close> canonicalise to the letters of the patterns.
\<close>

definition tdAt :: "ustring \<Rightarrow> bool" where
  "tdAt s =
     (case s of
        a # b # c # rest \<Rightarrow> a = 60 \<and> (b = 116 \<or> b = 84) \<and> (c = 100 \<or> c = 68)
      | _ \<Rightarrow> False)"

definition trCloseAt :: "ustring \<Rightarrow> bool" where
  "trCloseAt s =
     (case s of
        a # b # c # d # e # rest \<Rightarrow>
          a = 60 \<and> b = 47 \<and> (c = 116 \<or> c = 84) \<and> (d = 114 \<or> d = 82) \<and> e = 62
      | _ \<Rightarrow> False)"

text \<open>
  A match of \<open>/(<td[^>]*>)([^<]*?)(<td)/gi\<close> at the head of the text, as the text of the
  first two groups, the text of the third group and the text after the match. The
  first group ends at the first \<open>>\<close> after \<open><td\<close>, since \<open>[^>]*\<close> cannot pass one; the
  second group ends at the first \<open><\<close> after that, since \<open>[^<]*?\<close> cannot pass one; so
  the match at a position is unique, and there is none unless \<open><td\<close> stands there.
\<close>

definition matchTd :: "ustring \<Rightarrow> (ustring \<times> ustring \<times> ustring) option" where
  "matchTd s =
     (if tdAt s then
        (case dropWhile (\<lambda>c. c \<noteq> 62) (drop 3 s) of
           [] \<Rightarrow> None
         | gt # r2 \<Rightarrow>
             if tdAt (dropWhile (\<lambda>c. c \<noteq> 60) r2)
             then Some (take 3 s @ takeWhile (\<lambda>c. c \<noteq> 62) (drop 3 s) @ gt #
                          takeWhile (\<lambda>c. c \<noteq> 60) r2,
                        take 3 (dropWhile (\<lambda>c. c \<noteq> 60) r2),
                        drop 3 (dropWhile (\<lambda>c. c \<noteq> 60) r2))
             else None)
      else None)"

text \<open>The same for \<open>/(<td[^>]*>)([^<]*?)(<\/tr>)/gi\<close>.\<close>

definition matchTr :: "ustring \<Rightarrow> (ustring \<times> ustring \<times> ustring) option" where
  "matchTr s =
     (if tdAt s then
        (case dropWhile (\<lambda>c. c \<noteq> 62) (drop 3 s) of
           [] \<Rightarrow> None
         | gt # r2 \<Rightarrow>
             if trCloseAt (dropWhile (\<lambda>c. c \<noteq> 60) r2)
             then Some (take 3 s @ takeWhile (\<lambda>c. c \<noteq> 62) (drop 3 s) @ gt #
                          takeWhile (\<lambda>c. c \<noteq> 60) r2,
                        take 5 (dropWhile (\<lambda>c. c \<noteq> 60) r2),
                        drop 5 (dropWhile (\<lambda>c. c \<noteq> 60) r2))
             else None)
      else None)"

lemma matchTd_shorter:
  "matchTd s = Some (pre, g3, rest) \<Longrightarrow> length rest < length s"
proof -
  assume m: "matchTd s = Some (pre, g3, rest)"
  then obtain gt r2 where r2: "dropWhile (\<lambda>c. c \<noteq> 62) (drop 3 s) = gt # r2"
    and rest: "rest = drop 3 (dropWhile (\<lambda>c. c \<noteq> 60) r2)"
    by (auto simp: matchTd_def split: if_splits list.splits)
  have "length (dropWhile (\<lambda>c. c \<noteq> 60) r2) \<le> length r2"
    by (rule length_dropWhile_le)
  moreover have "length (gt # r2) \<le> length (drop 3 s)"
    unfolding r2 [symmetric] by (rule length_dropWhile_le)
  ultimately show ?thesis
    unfolding rest by simp
qed

lemma matchTr_shorter:
  "matchTr s = Some (pre, g3, rest) \<Longrightarrow> length rest < length s"
proof -
  assume m: "matchTr s = Some (pre, g3, rest)"
  then obtain gt r2 where r2: "dropWhile (\<lambda>c. c \<noteq> 62) (drop 3 s) = gt # r2"
    and rest: "rest = drop 5 (dropWhile (\<lambda>c. c \<noteq> 60) r2)"
    by (auto simp: matchTr_def split: if_splits list.splits)
  have "length (dropWhile (\<lambda>c. c \<noteq> 60) r2) \<le> length r2"
    by (rule length_dropWhile_le)
  moreover have "length (gt # r2) \<le> length (drop 3 s)"
    unfolding r2 [symmetric] by (rule length_dropWhile_le)
  ultimately show ?thesis
    unfolding rest by simp
qed

text \<open>
  \<open>fullText.replace(/(<td[^>]*>)([^<]*?)(<td)/gi, '$1$2</td>$3')\<close>: one pass from the
  left; after a match the search goes on behind it.
\<close>

function closeUnclosedTd :: "ustring \<Rightarrow> ustring" where
  "closeUnclosedTd [] = []"
| "closeUnclosedTd (c # cs) =
     (case matchTd (c # cs) of
        Some (pre, g3, rest) \<Rightarrow> pre @ asc ''</td>'' @ g3 @ closeUnclosedTd rest
      | None \<Rightarrow> c # closeUnclosedTd cs)"
  by pat_completeness auto
termination
  by (relation "measure length") (auto dest: matchTd_shorter)

text \<open>\<open>fullText.replace(/(<td[^>]*>)([^<]*?)(<\/tr>)/gi, '$1$2</td>$3')\<close>\<close>

function closeLastTd :: "ustring \<Rightarrow> ustring" where
  "closeLastTd [] = []"
| "closeLastTd (c # cs) =
     (case matchTr (c # cs) of
        Some (pre, g3, rest) \<Rightarrow> pre @ asc ''</td>'' @ g3 @ closeLastTd rest
      | None \<Rightarrow> c # closeLastTd cs)"
  by pat_completeness auto
termination
  by (relation "measure length") (auto dest: matchTr_shorter)

text \<open>
  The loop \<open>while (fullText.length !== prevLength)\<close>. The source has no bound on the
  number of passes, so the loop is a partial function: \<open>None\<close> is a run without end.
\<close>

partial_function (option) fixTdLoop :: "ustring \<Rightarrow> nat \<Rightarrow> ustring option" where
  "fixTdLoop fullText prevLength =
     (if length fullText \<noteq> prevLength
      then fixTdLoop (closeUnclosedTd fullText) (length fullText)
      else Some fullText)"

text \<open>
  \<open>Processor.preprocessHtmlIfNeeded(data, filename)\<close>, with the UTF-8 \<open>TextDecoder\<close> and
  \<open>TextEncoder\<close> as parameters.
\<close>

definition preprocessHtmlIfNeeded ::
  "(nat list \<Rightarrow> ustring) \<Rightarrow> (ustring \<Rightarrow> nat list) \<Rightarrow> nat list \<Rightarrow> ustring \<Rightarrow> nat list option" where
  "preprocessHtmlIfNeeded decode encode data filename =
     (let text = decode (take 500 data)
      in if \<not> str_includes text (asc ''<html'') \<and> \<not> str_includes text (asc ''<table'')
         then Some data
         else (case fixTdLoop (decode data) 0 of
                 None \<Rightarrow> None
               | Some fullText \<Rightarrow> Some (encode (closeLastTd fullText))))"

text \<open>
  The first \<open><\<close> of a text starts \<open><td\<close>; and: a text has a \<open>>\<close>, and the first \<open><\<close>
  after its first \<open>>\<close> starts \<open><td\<close>. The first pattern matches at the head of a
  text exactly when \<open><td\<close> stands there and the rest has the second property.
\<close>

definition firstLtIsTd :: "ustring \<Rightarrow> bool" where
  "firstLtIsTd s = tdAt (dropWhile (\<lambda>c. c \<noteq> 60) s)"

definition gtThenTd :: "ustring \<Rightarrow> bool" where
  "gtThenTd s =
     (case dropWhile (\<lambda>c. c \<noteq> 62) s of [] \<Rightarrow> False | gt # r \<Rightarrow> firstLtIsTd r)"

text \<open>The number of positions of a text at which the first pattern matches.\<close>

fun countMatches :: "ustring \<Rightarrow> nat" where
  "countMatches [] = 0"
| "countMatches (c # cs) = (if matchTd (c # cs) = None then 0 else 1) + countMatches cs"

section \<open>The catalog of router.js\<close>

text \<open>The header keywords and display names of \<open>SOURCE_DEFINITIONS\<close>, as code units.\<close>

definition h_use_date :: ustring where
  "h_use_date = [51060, 50857, 51068]"

definition h_use_time :: ustring where
  "h_use_time = [51060, 50857, 49884, 44036]"

definition h_use_place :: ustring where
  "h_use_place = [51060, 50857, 54616, 49888, 44275]"

definition h_use_amount :: ustring where
  "h_use_amount = [51060, 50857, 44552, 50529]"

definition h_use_amount_won :: ustring where
  "h_use_amount_won = [51060, 50857, 44552, 50529, 40, 50896, 41]"

definition h_approval_datetime :: ustring where
  "h_approval_datetime = [49849, 51064, 51068, 49884]"

definition h_merchant :: ustring where
  "h_merchant = [44032, 47609, 51216, 47749]"

definition h_approval_amount :: ustring where
  "h_approval_amount = [49849, 51064, 44552, 50529]"

definition h_trade_amount :: ustring where
  "h_trade_amount = [44144, 47000, 44552, 50529]"

definition h_trade_date :: ustring where
  "h_trade_date = [44144, 47000, 51068]"

definition h_amount :: ustring where
  "h_amount = [44552, 50529]"

definition h_card_number :: ustring where
  "h_card_number = [52852, 46300, 48264, 54840]"

definition h_approval_date :: ustring where
  "h_approval_date = [49849, 51064, 51068, 51088]"

definition h_approval_time :: ustring where
  "h_approval_time = [49849, 51064, 49884, 44033]"

definition h_approval_amount_won :: ustring where
  "h_approval_amount_won = [49849, 51064, 44552, 50529, 40, 50896, 41]"

definition h_trade_datetime :: ustring where
  "h_trade_datetime = [44144, 47000, 51068, 49884]"

definition h_memo :: ustring where
  "h_memo = [51201, 50836]"

definition h_withdrawn :: ustring where
  "h_withdrawn = [52286, 51004, 49888, 44552, 50529]"

definition h_deposited :: ustring where
  "h_deposited = [47585, 44592, 49888, 44552, 50529]"

definition h_trade_time :: ustring where
  "h_trade_time = [44144, 47000, 49884, 44036]"

definition h_use_datetime :: ustring where
  "h_use_datetime = [51060, 50857, 51068, 49884]"

definition h_use_card :: ustring where
  "h_use_card = [51060, 50857, 52852, 46300]"

definition n_kb_card :: ustring where
  "n_kb_card = [75, 66, 44397, 48124, 52852, 46300]"

definition n_bc_card :: ustring where
  "n_bc_card = [48708, 50472, 52852, 46300]"

definition n_shinhan_card :: ustring where
  "n_shinhan_card = [49888, 54620, 52852, 46300]"

definition n_samsung_card :: ustring where
  "n_samsung_card = [49340, 49457, 52852, 46300]"

definition n_citi_account :: ustring where
  "n_citi_account = [50472, 54000, 44228, 51340]"

definition n_citi_card :: ustring where
  "n_citi_card = [50472, 54000, 52852, 46300]"

definition noMapping :: mapping where
  "noMapping =
     \<lparr>m_date = None, m_time = None, m_raw_description = None, m_amount = None,
      m_amount_alt = None, m_net_payment = None, m_total_deduction = None,
      m_employee_name = None\<rparr>"

definition kb_card :: sourceDef where
  "kb_card =
     \<lparr>d_type = asc ''kb_card'', d_name = n_kb_card,
      signatures = [h_use_date, h_use_place, h_use_amount],
      d_mapping =
        noMapping\<lparr>m_date := Some (Single h_use_date),
          m_time := Some (Single h_use_time),
          m_raw_description := Some (Single h_use_place),
          m_amount := Some (Single h_use_amount_won),
          m_amount_alt := Some (Single h_use_amount)\<rparr>\<rparr>"

definition bc_card :: sourceDef where
  "bc_card =
     \<lparr>d_type = asc ''bc_card'', d_name = n_bc_card,
      signatures = [h_approval_datetime, h_merchant, h_approval_amount],
      d_mapping =
        noMapping\<lparr>m_date := Some (Single h_approval_datetime),
          m_raw_description := Some (Single h_merchant),
          m_amount := Some (Single h_approval_amount),
          m_amount_alt := Some (Single h_trade_amount)\<rparr>\<rparr>"

definition shinhan_card :: sourceDef where
  "shinhan_card =
     \<lparr>d_type = asc ''shinhan_card'', d_name = n_shinhan_card,
      signatures = [h_trade_date, h_merchant, h_amount],
      d_mapping =
        noMapping\<lparr>m_date := Some (Single h_trade_date),
          m_raw_description := Some (Single h_merchant),
          m_amount := Some (Single h_amount)\<rparr>\<rparr>"

definition samsung_card :: sourceDef where
  "samsung_card =
     \<lparr>d_type = asc ''samsung_card'', d_name = n_samsung_card,
      signatures = [h_card_number, h_approval_date, h_approval_time, h_approval_amount_won],
      d_mapping =
        noMapping\<lparr>m_date := Some (Single h_approval_date),
          m_time := Some (Single h_approval_time),
          m_raw_description := Some (Single h_merchant),
          m_amount := Some (Single h_approval_amount_won)\<rparr>\<rparr>"

definition citi_account :: sourceDef where
  "citi_account =
     \<lparr>d_type = asc ''citi_account'', d_name = n_citi_account,
      signatures = [h_trade_datetime, h_memo, h_withdrawn, h_deposited],
      d_mapping =
        noMapping\<lparr>m_date := Some (Single h_trade_datetime),
          m_time := Some (Single h_trade_time),
          m_raw_description := Some (Single h_memo),
          m_amount := Some (Single h_withdrawn),
          m_amount_alt := Some (Single h_deposited)\<rparr>\<rparr>"

definition citi_card :: sourceDef where
  "citi_card =
     \<lparr>d_type = asc ''citi_card'', d_name = n_citi_card,
      signatures = [h_use_datetime, h_use_card, h_merchant, h_trade_amount],
      d_mapping =
        noMapping\<lparr>m_date := Some (Single h_use_datetime),
          m_raw_description := Some (Single h_merchant),
          m_amount := Some (Single h_trade_amount)\<rparr>\<rparr>"

definition SOURCE_DEFINITIONS :: "sourceDef list" where
  "SOURCE_DEFINITIONS = [kb_card, bc_card, shinhan_card, samsung_card, citi_account, citi_card]"

section \<open>Inputs of the worked examples\<close>

text \<open>
  An engine for the examples: local time is Korea Standard Time (UTC+9), \<open>Date.parse\<close>
  recognises nothing, the clock stands at 2025-01-15T00:00:00Z, lowercasing is that of
  the ASCII letters, and the Numbers printed are integers.
\<close>

definition asciiLower :: "ustring \<Rightarrow> ustring" where
  "asciiLower s = map (\<lambda>c. if 65 \<le> c \<and> c \<le> 90 then c + 32 else c) s"

definition exampleEnv :: env where
  "exampleEnv =
     \<lparr>numToString = (\<lambda>n. case n of Fin q \<Rightarrow> intToString \<lfloor>q\<rfloor> | _ \<Rightarrow> asc ''NaN''),
      dateParse = (\<lambda>s. NaN),
      localTZA = (\<lambda>t. 32400000),
      toLowerCase = asciiLower,
      now = 1736899200000,
      randomUUID = (\<lambda>k. natDigits k)\<rparr>"

text \<open>
  The same engine with local time five hours behind UTC (New York in January), and with
  local time equal to UTC.
\<close>

definition westEnv :: env where
  "westEnv = exampleEnv\<lparr>localTZA := (\<lambda>t. - 18000000)\<rparr>"

definition utcEnv :: env where
  "utcEnv = exampleEnv\<lparr>localTZA := (\<lambda>t. 0)\<rparr>"

text \<open>
  A card statement: the header row and one data row, the merchant U+C2A4 U+D0C0 U+BC85
  U+C2A4 and the amount \<open>4500\<close>.
\<close>

definition cardWorkbook :: workbook where
  "cardWorkbook =
     [(asc ''Sheet1'',
       [[Some (VStr h_use_date), Some (VStr h_use_time), Some (VStr h_use_place),
         Some (VStr h_use_amount_won)],
        [Some (VStr (asc ''2025-01-10'')), Some (VStr (asc ''13:00'')),
         Some (VStr [49828, 53440, 48261, 49828]), Some (VNum (Fin 4500))]])]"

text \<open>The identification of the card statement, and the record normalized from its data row.\<close>

definition cardInfo :: sourceInfo where
  "cardInfo =
     \<lparr>si_def = kb_card,
      headerRow = [Some h_use_date, Some h_use_time, Some h_use_place, Some h_use_amount_won],
      headerIndex = 0, sheetName = asc ''Sheet1'', jsonData = snd (hd cardWorkbook)\<rparr>"

definition cardRecord :: entry where
  "cardRecord =
     \<lparr>entry_id = [48], date = asc ''2025-01-10'', time = VStr (asc ''13:00''),
      amount = VNum (Fin 4500), raw_description = [49828, 53440, 48261, 49828], item = [],
      category_detail = [], category_main = [], category_mso = [], raw_source = n_kb_card,
      raw_filename = asc ''a.xlsx'', display_date = VUndefined, col_transfer = VUndefined,
      col_account = VUndefined, col_cash = VUndefined, col_card = VUndefined,
      col_card_detail = VUndefined\<rparr>"

text \<open>The same statement with an empty cell in the header row, where the time column was.\<close>

definition sparseWorkbook :: workbook where
  "sparseWorkbook =
     [(asc ''Sheet1'',
       [[Some (VStr h_use_date), None, Some (VStr h_use_place), Some (VStr h_use_amount_won)],
        [Some (VStr (asc ''2025-01-10'')), None,
         Some (VStr [49828, 53440, 48261, 49828]), Some (VNum (Fin 4500))]])]"

text \<open>The header row of \<open>sparseWorkbook\<close> as identification leaves it.\<close>

definition sparseHeader :: "ustring jsarray" where
  "sparseHeader = [Some h_use_date, None, Some h_use_place, Some h_use_amount_won]"

text \<open>
  Two workbooks that no definition of the catalog matches: one whose only row has no
  cells, and one whose only row has a text, an empty slot and a number.
\<close>

definition blankRowWorkbook :: workbook where
  "blankRowWorkbook = [(asc ''Sheet1'', [[]])]"

definition memoWorkbook :: workbook where
  "memoWorkbook = [(asc ''Sheet1'', [[Some (VStr (asc ''Memo'')), None, Some (VNum (Fin 12))]])]"

text \<open>
  A payroll summary. \<open>router.js\<close> as given has no catalog entry of the type
  \<open>salary_summary\<close> that \<open>processFile\<close> tests for; the entry here has that type and, as
  its mapping, the three header names that the comments of \<open>normalizeSalarySummary\<close>
  give: U+CC28 U+C778 U+C9C0 U+AE09 U+C561 (net payment), U+ACF5 U+C81C U+D569 U+ACC4
  (total deduction) and U+C131 U+BA85 (name). The sheet has one employee row and the
  totals row with net \<open>3000000\<close> and deduction \<open>400000\<close>.
\<close>

definition h_name :: ustring where
  "h_name = [49457, 47749]"

definition h_net_payment :: ustring where
  "h_net_payment = [52264, 51064, 51648, 44553, 50529]"

definition h_total_deduction :: ustring where
  "h_total_deduction = [44277, 51228, 54633, 44228]"

definition salaryDef :: sourceDef where
  "salaryDef =
     \<lparr>d_type = salary_summary, d_name = [44553, 50668, 52509, 44292, 54364],
      signatures = [h_name, h_net_payment],
      d_mapping =
        noMapping\<lparr>m_net_payment := Some (Single h_net_payment),
          m_total_deduction := Some (Single h_total_deduction),
          m_employee_name := Some (Single h_name)\<rparr>\<rparr>"

definition salaryInfo :: sourceInfo where
  "salaryInfo =
     \<lparr>si_def = salaryDef,
      headerRow = [Some h_name, Some h_net_payment, Some h_total_deduction],
      headerIndex = 0, sheetName = asc ''Sheet1'',
      jsonData =
        [[Some (VStr h_name), Some (VStr h_net_payment), Some (VStr h_total_deduction)],
         [Some (VStr (asc ''Kim'')), Some (VNum (Fin 3000000)), Some (VNum (Fin 400000))],
         [Some (VStr totalMarker), Some (VNum (Fin 3000000)), Some (VNum (Fin 400000))]]\<rparr>"

text \<open>
  The identification of a payroll summary without a deduction column, whose header row
  has an empty cell between the name and the net payment.
\<close>

definition salarySparseInfo :: sourceInfo where
  "salarySparseInfo =
     \<lparr>si_def = salaryDef,
      headerRow = [Some h_name, None, Some h_net_payment],
      headerIndex = 0, sheetName = asc ''Sheet1'',
      jsonData =
        [[Some (VStr h_name), None, Some (VStr h_net_payment)],
         [Some (VStr totalMarker), None, Some (VNum (Fin 3000000))]]\<rparr>"

text \<open>Two rules, the keyword of the first contained in the keyword of the second.\<close>

definition ruleA :: rule where
  "ruleA =
     \<lparr>r_keywords = [asc ''star''],
      r_updates = Some \<lparr>u_item = Some (asc ''coffee''), u_description_out = None,
                        u_category_detail = None, u_category_main = None,
                        u_category_mso = None\<rparr>\<rparr>"

definition ruleB :: rule where
  "ruleB =
     \<lparr>r_keywords = [asc ''starbucks''],
      r_updates = Some \<lparr>u_item = Some (asc ''cafe''), u_description_out = None,
                        u_category_detail = None, u_category_main = Some (asc ''food''),
                        u_category_mso = None\<rparr>\<rparr>"

definition blankEntry :: "ustring \<Rightarrow> ustring \<Rightarrow> jsval \<Rightarrow> entry" where
  "blankEntry description source amt =
     \<lparr>entry_id = [], date = asc ''2025-01-10'', time = VStr [], amount = amt,
      raw_description = description, item = [], category_detail = [], category_main = [],
      category_mso = [], raw_source = source, raw_filename = asc ''a.xlsx'',
      display_date = VUndefined, col_transfer = VUndefined, col_account = VUndefined,
      col_cash = VUndefined, col_card = VUndefined, col_card_detail = VUndefined\<rparr>"

section \<open>Payment channels\<close>

text \<open>A channel group is populated when its columns hold a value other than the empty string.\<close>

definition cashPopulated :: "entry \<Rightarrow> bool" where
  "cashPopulated e \<longleftrightarrow> col_cash e \<noteq> VStr []"

definition cardPopulated :: "entry \<Rightarrow> bool" where
  "cardPopulated e \<longleftrightarrow> col_card e \<noteq> VStr [] \<and> col_card_detail e \<noteq> VStr []"

definition transferPopulated :: "entry \<Rightarrow> bool" where
  "transferPopulated e \<longleftrightarrow> col_transfer e \<noteq> VStr [] \<and> col_account e \<noteq> VStr []"

definition cashEmpty :: "entry \<Rightarrow> bool" where
  "cashEmpty e \<longleftrightarrow> col_cash e = VStr []"

definition cardEmpty :: "entry \<Rightarrow> bool" where
  "cardEmpty e \<longleftrightarrow> col_card e = VStr [] \<and> col_card_detail e = VStr []"

definition transferEmpty :: "entry \<Rightarrow> bool" where
  "transferEmpty e \<longleftrightarrow> col_transfer e = VStr [] \<and> col_account e = VStr []"

definition oneChannel :: "entry \<Rightarrow> bool" where
  "oneChannel e \<longleftrightarrow>
     cardPopulated e \<and> transferEmpty e \<and> cashEmpty e \<or>
     transferPopulated e \<and> cardEmpty e \<and> cashEmpty e \<or>
     cashPopulated e \<and> cardEmpty e \<and> transferEmpty e"

section \<open>Verified properties\<close>

subsection \<open>Currency extractor\<close>

lemma orZero_not_NaN: "orZero n \<noteq> NaN"
  by (simp add: orZero_def numTruthy_def)

lemma orZero_NaN: "orZero NaN = Fin 0"
  by (simp add: orZero_def numTruthy_def)

lemma krwOfString_not_NaN: "krwOfString s \<noteq> NaN"
  by (simp add: krwOfString_def orZero_not_NaN split: option.split)

lemma wonMatch_group:
  "wonMatch s = Some g \<Longrightarrow> set g \<subseteq> set s \<and> (\<forall>c\<in>set g. isDigitOrComma c)"
proof (induction s)
  case Nil
  then show ?case by simp
next
  case (Cons c cs)
  show ?case
  proof (cases "c = 65510 \<and> takeWhile isDigitOrComma (dropWhile isWhiteSpace cs) \<noteq> []")
    case True
    with Cons.prems have g: "g = takeWhile isDigitOrComma (dropWhile isWhiteSpace cs)"
      by simp
    have "set g \<subseteq> set (dropWhile isWhiteSpace cs)"
      unfolding g by (meson set_takeWhileD subsetI)
    moreover have "set (dropWhile isWhiteSpace cs) \<subseteq> set cs"
      by (meson set_dropWhileD subsetI)
    moreover have "\<forall>c\<in>set g. isDigitOrComma c"
      unfolding g by (meson set_takeWhileD)
    ultimately show ?thesis by auto
  next
    case False
    with Cons.prems have "wonMatch cs = Some g" by (simp split: if_splits)
    with Cons.IH show ?thesis by auto
  qed
qed

lemma set_beforeBr: "set (beforeBr s) \<subseteq> set s"
  by (induction s) auto

lemma parseFloat_Nil: "parseFloat [] = NaN"
  by (simp add: parseFloat_def asc_def)

lemma parseFloat_dots_dashes:
  assumes "\<forall>c\<in>set t. c = 45 \<or> c = 46"
  shows "parseFloat t = NaN"
proof (cases t)
  case Nil
  then show ?thesis by (simp add: parseFloat_Nil)
next
  case (Cons a u)
  have u: "takeWhile isDigit u = []" using assms Cons
    by (cases u) (auto simp: isDigit_def)
  have tlu: "takeWhile isDigit (tl u) = []" using assms Cons
    by (cases u; cases "tl u") (auto simp: isDigit_def)
  have pu: "\<not> prefix (asc ''Infinity'') u" using assms Cons
    by (cases u) (auto simp: asc_def)
  from assms Cons have "a = 45 \<or> a = 46" by simp
  then show ?thesis
  proof
    assume "a = 45"
    then show ?thesis using Cons u tlu pu
      by (cases u) (auto simp: parseFloat_def isWhiteSpace_def Let_def)
  next
    assume "a = 46"
    then show ?thesis using Cons u
      by (auto simp: parseFloat_def isWhiteSpace_def Let_def asc_def isDigit_def)
  qed
qed

lemma krwOfString_no_digit:
  assumes "\<forall>c\<in>set s. \<not> isDigit c"
  shows "krwOfString s = Fin 0"
proof (cases "wonMatch s")
  case (Some g)
  from wonMatch_group [OF Some] assms have "\<forall>c\<in>set g. c = 44"
    by (auto simp: isDigitOrComma_def)
  then have "filter (\<lambda>c. c \<noteq> 44) g = []"
    by (simp add: filter_empty_conv)
  with Some show ?thesis
    by (simp add: krwOfString_def parseFloat_Nil orZero_NaN)
next
  case None
  have "\<forall>c\<in>set (filter (\<lambda>c. isDigit c \<or> c = 46 \<or> c = 45) (beforeBr s)). c = 45 \<or> c = 46"
    using assms set_beforeBr [of s] by auto
  then have "parseFloat (filter (\<lambda>c. isDigit c \<or> c = 46 \<or> c = 45) (beforeBr s)) = NaN"
    by (rule parseFloat_dots_dashes)
  with None show ?thesis
    by (simp add: krwOfString_def orZero_NaN)
qed

lemma toDouble_36411: "toDouble 36411 = Fin 36411"
  by code_simp

lemma parseFloat_36411: "parseFloat (asc ''36411'') = Fin 36411"
  by (simp add: parseFloat_def asc_def isWhiteSpace_def isDigit_def digitsVal_def
      exponentPart_def pow10_def toDouble_36411)

lemma krw_example_won: "krwOfString (8361 # asc ''36,411<br/>[USD]25.72'') = Fin 36411"
proof -
  have w: "wonMatch (8361 # asc ''36,411<br/>[USD]25.72'') = None"
    by (simp add: asc_def isWhiteSpace_def isDigitOrComma_def isDigit_def)
  have b: "beforeBr (8361 # asc ''36,411<br/>[USD]25.72'') = 8361 # asc ''36,411''"
    by (simp add: asc_def brAt_def isWhiteSpace_def)
  have c: "filter (\<lambda>c. isDigit c \<or> c = 46 \<or> c = 45) (8361 # asc ''36,411'') = asc ''36411''"
    by (simp add: asc_def isDigit_def)
  show ?thesis
    unfolding krwOfString_def w b c parseFloat_36411
    by (simp add: orZero_def numTruthy_def)
qed

lemma krw_example_fullwidth: "krwOfString (65510 # asc ''36,411<br/>[USD]25.72'') = Fin 36411"
proof -
  have w: "wonMatch (65510 # asc ''36,411<br/>[USD]25.72'') = Some (asc ''36,411'')"
    by (simp add: asc_def isWhiteSpace_def isDigitOrComma_def isDigit_def)
  have c: "filter (\<lambda>c. c \<noteq> 44) (asc ''36,411'') = asc ''36411''"
    by (simp add: asc_def)
  show ?thesis
    unfolding krwOfString_def w option.case c parseFloat_36411
    by (simp add: orZero_def numTruthy_def)
qed

text \<open>
  C6: \<open>extractKRW\<close> is idempotent, maps the documented examples (with the won sign
  U+20A9 of the specification and with the fullwidth won sign U+FFE6 of the source) to
  \<open>36411\<close>, \<open>1500\<close> and \<open>0\<close>, gives \<open>0\<close> for every string without a digit, and never
  gives NaN for a string.
\<close>

theorem extractKRW_idempotent:
  "extractKRW (VNum (extractKRW x)) = extractKRW x \<and>
   extractKRW (VStr (8361 # asc ''36,411<br/>[USD]25.72'')) = Fin 36411 \<and>
   extractKRW (VStr (65510 # asc ''36,411<br/>[USD]25.72'')) = Fin 36411 \<and>
   extractKRW (VNum (Fin 1500)) = Fin 1500 \<and>
   extractKRW (VStr []) = Fin 0 \<and>
   ((\<forall>c\<in>set s. \<not> isDigit c) \<longrightarrow> extractKRW (VStr s) = Fin 0) \<and>
   extractKRW (VStr s) \<noteq> NaN"
  by (simp add: krw_example_won krw_example_fullwidth krwOfString_no_digit krwOfString_not_NaN)

theorem extractKRW_idempotent_witness:
  "list_all (\<lambda>c. \<not> isDigit c) (asc ''N/A'') \<and> extractKRW (VStr (asc ''N/A'')) = Fin 0"
proof -
  have h: "\<forall>c\<in>set (asc ''N/A''). \<not> isDigit c"
    by (simp add: asc_def isDigit_def)
  with extractKRW_idempotent [of VNull "asc ''N/A''"] show ?thesis
    by (simp add: list_all_iff)
qed

subsection \<open>Classifier\<close>

lemma applyRules_find:
  "applyRules lc rs e = (case find (ruleMatches lc e) rs of None \<Rightarrow> e | Some r \<Rightarrow> applyRule r e)"
  by (induction rs) auto

lemma applyUpdates_fields:
  "applyUpdates u e =
     e\<lparr>item :=
          (case u_item u of
             Some v \<Rightarrow>
               (if v = [] then (case u_description_out u of None \<Rightarrow> v | Some w \<Rightarrow> w) else v)
           | None \<Rightarrow>
               (case u_description_out u of
                  None \<Rightarrow> item e
                | Some w \<Rightarrow> if item e = [] then w else item e)),
        category_detail := (case u_category_detail u of None \<Rightarrow> category_detail e | Some v \<Rightarrow> v),
        category_main := (case u_category_main u of None \<Rightarrow> category_main e | Some v \<Rightarrow> v),
        category_mso := (case u_category_mso u of None \<Rightarrow> category_mso e | Some v \<Rightarrow> v)\<rparr>"
  by (simp add: applyUpdates_def Let_def split: option.split)

lemma applyRule_keeps:
  "raw_description (applyRule r e) = raw_description e"
  "raw_source (applyRule r e) = raw_source e"
  "amount (applyRule r e) = amount e"
  "date (applyRule r e) = date e"
  by (simp_all add: applyRule_def applyUpdates_fields split: option.split)

lemma applyRules_keeps:
  "raw_description (applyRules lc rs e) = raw_description e"
  "raw_source (applyRules lc rs e) = raw_source e"
  "amount (applyRules lc rs e) = amount e"
  "date (applyRules lc rs e) = date e"
  by (induction rs) (simp_all add: applyRule_keeps)

lemma deriveColumns_keeps:
  "raw_description (deriveColumns e) = raw_description e"
  "raw_source (deriveColumns e) = raw_source e"
  "amount (deriveColumns e) = amount e"
  "item (deriveColumns e) = item e"
  "category_detail (deriveColumns e) = category_detail e"
  "category_main (deriveColumns e) = category_main e"
  "category_mso (deriveColumns e) = category_mso e"
  by (simp_all add: deriveColumns_def Let_def)

lemma classifyData_raw_description:
  "map raw_description (classifyData lc rules data) = map raw_description data"
  by (cases rules) (simp_all add: classifyData_def deriveColumns_keeps applyRules_keeps comp_def)

lemma classifyData_nth:
  assumes "i < length data"
  shows "classifyData lc rules data ! i =
         deriveColumns (case rules of None \<Rightarrow> data ! i | Some rs \<Rightarrow> applyRules lc rs (data ! i))"
  using assms by (cases rules) (simp_all add: classifyData_def)

text \<open>
  C3: the rules are walked in list order and only the first matching rule is applied
  (the result is that of \<open>find\<close>); a rule matches when one of its keywords, lowercased, is
  contained in the lowercased description; the applied rule changes at most the four
  classification fields, each only when the update set has it (\<open>item\<close> also from the
  legacy \<open>description_out\<close>, which fills an empty \<open>item\<close>); an entry that no rule matches
  is left as it is; and \<open>raw_description\<close> is the same after classification as before.
\<close>

theorem classifyData_first_match:
  "applyRules lc rs e =
     (case find (ruleMatches lc e) rs of None \<Rightarrow> e | Some r \<Rightarrow> applyRule r e) \<and>
   (ruleMatches lc e r \<longleftrightarrow>
      (\<exists>k\<in>set (r_keywords r). str_includes (lc (raw_description e)) (lc k))) \<and>
   (r_updates r = None \<longrightarrow> applyRule r e = e) \<and>
   (r_updates r = Some u \<longrightarrow>
      applyRule r e =
        e\<lparr>item :=
             (case u_item u of
                Some v \<Rightarrow>
                  (if v = [] then (case u_description_out u of None \<Rightarrow> v | Some w \<Rightarrow> w) else v)
              | None \<Rightarrow>
                  (case u_description_out u of
                     None \<Rightarrow> item e
                   | Some w \<Rightarrow> if item e = [] then w else item e)),
           category_detail :=
             (case u_category_detail u of None \<Rightarrow> category_detail e | Some v \<Rightarrow> v),
           category_main := (case u_category_main u of None \<Rightarrow> category_main e | Some v \<Rightarrow> v),
           category_mso := (case u_category_mso u of None \<Rightarrow> category_mso e | Some v \<Rightarrow> v)\<rparr>) \<and>
   ((\<forall>r'\<in>set rs. \<not> ruleMatches lc e r') \<longrightarrow> applyRules lc rs e = e) \<and>
   (ruleMatches lc e r \<longrightarrow> applyRules lc (r # rs) e = applyRule r e) \<and>
   (i < length data \<longrightarrow>
      classifyData lc (Some rs) data ! i = deriveColumns (applyRules lc rs (data ! i))) \<and>
   map item (classifyData lc None data) = map item data \<and>
   map raw_description (classifyData lc rules data) = map raw_description data"
proof -
  have none: "(\<forall>r'\<in>set rs. \<not> ruleMatches lc e r') \<longrightarrow> applyRules lc rs e = e"
    by (induction rs) auto
  have item: "map item (classifyData lc None data) = map item data"
    by (simp add: classifyData_def deriveColumns_keeps comp_def)
  show ?thesis
    using none item
    by (simp add: applyRules_find [of lc rs e] ruleMatches_def list_ex_iff applyRule_def
        applyUpdates_fields classifyData_raw_description classifyData_nth)
qed

theorem classifyData_first_match_witness:
  "ruleMatches asciiLower (blankEntry (asc ''Starbucks Gangnam'') n_kb_card (VNum (Fin 4500))) ruleA \<and>
   ruleMatches asciiLower (blankEntry (asc ''Starbucks Gangnam'') n_kb_card (VNum (Fin 4500))) ruleB \<and>
   applyRules asciiLower [ruleA, ruleB]
     (blankEntry (asc ''Starbucks Gangnam'') n_kb_card (VNum (Fin 4500))) =
   (blankEntry (asc ''Starbucks Gangnam'') n_kb_card (VNum (Fin 4500)))\<lparr>item := asc ''coffee''\<rparr>"
proof -
  let ?e = "blankEntry (asc ''Starbucks Gangnam'') n_kb_card (VNum (Fin 4500))"
  have a: "ruleMatches asciiLower ?e ruleA"
    by (simp add: ruleMatches_def ruleA_def blankEntry_def asciiLower_def asc_def)
  have b: "ruleMatches asciiLower ?e ruleB"
    by (simp add: ruleMatches_def ruleB_def blankEntry_def asciiLower_def asc_def)
  have u: "r_updates ruleA =
      Some \<lparr>u_item = Some (asc ''coffee''), u_description_out = None, u_category_detail = None,
            u_category_main = None, u_category_mso = None\<rparr>"
    by (simp add: ruleA_def)
  from classifyData_first_match [of asciiLower "[ruleB]" ?e ruleA _ 0 "[]" None]
  have "applyRules asciiLower [ruleA, ruleB] ?e = applyRule ruleA ?e"
    using a by blast
  moreover
  from classifyData_first_match [of asciiLower "[ruleB]" ?e ruleA
      "\<lparr>u_item = Some (asc ''coffee''), u_description_out = None, u_category_detail = None,
        u_category_main = None, u_category_mso = None\<rparr>" 0 "[]" None]
  have "applyRule ruleA ?e = ?e\<lparr>item := asc ''coffee''\<rparr>"
    using u by (simp add: asc_def blankEntry_def)
  ultimately show ?thesis
    using a b by simp
qed

subsection \<open>Worked example: a card statement through the pipeline\<close>

lemmas str_defs = asc_def isWhiteSpace_def isDigit_def trim_def stripWs_def

lemmas header_defs = h_use_date_def h_use_time_def h_use_place_def h_use_amount_def
  h_use_amount_won_def n_kb_card_def

lemma card_trimmedRow:
  "trimmedRow ns [Some (VStr h_use_date), Some (VStr h_use_time), Some (VStr h_use_place),
                  Some (VStr h_use_amount_won)] =
     [Some h_use_date, Some h_use_time, Some h_use_place, Some h_use_amount_won]"
  by (simp add: trimmedRow_def arr_map_def str_defs header_defs)

lemma card_scanDefs:
  "scanDefs [Some h_use_date, Some h_use_time, Some h_use_place, Some h_use_amount_won]
     SOURCE_DEFINITIONS = Some kb_card"
  by (simp add: SOURCE_DEFINITIONS_def kb_card_def isMatch_def cleanRow_def arr_map_def
      arr_some_def str_defs header_defs)

lemma card_identifySource:
  "identifySource ns SOURCE_DEFINITIONS filename cardWorkbook = Identified cardInfo"
  by (simp add: identifySource_def cardWorkbook_def cardInfo_def MAX_SEARCH_ROWS_def
      card_trimmedRow card_scanDefs)

lemma card_resolveColumns:
  "resolveColumns (headerRow cardInfo) (d_mapping (si_def cardInfo)) =
     Inr \<lparr>idxDate = 0, idxTime = 1, idxDesc = 2, idxAmtMain = 3, idxAmtAlt = 3\<rparr>"
  by (simp add: resolveColumns_def cardInfo_def kb_card_def noMapping_def getColIdx_def
      targetCols_def colOfTarget_def indexOf_def findIndex_def str_defs header_defs)

lemma card_normalizeRows:
  "normalizeRows exampleEnv clean (asc ''a.xlsx'') kb_card
     \<lparr>idxDate = 0, idxTime = 1, idxDesc = 2, idxAmtMain = 3, idxAmtAlt = 3\<rparr> 0
     (drop (Suc 0) (snd (hd cardWorkbook))) = [cardRecord\<lparr>amount := clean (VNum (Fin 4500))\<rparr>]"
  by (simp add: cardWorkbook_def cardRecord_def rowEntry_def rawAmount_def arr_get_def
      numTruthy_def exampleEnv_def formatDateString_def cleanDate_def isEightDigits_def
      isIsoDate_def kb_card_def natDigits.simps str_defs header_defs)

lemma card_normalizeData:
  "normalizeData exampleEnv (asc ''a.xlsx'') (jsonData cardInfo) cardInfo = Inr [cardRecord]"
proof -
  have "headerIndex cardInfo = 0" "jsonData cardInfo = snd (hd cardWorkbook)"
    "si_def cardInfo = kb_card"
    by (simp_all add: cardInfo_def)
  then show ?thesis
    unfolding normalizeData_def card_resolveColumns
    by (simp add: card_normalizeRows cardRecord_def)
qed

lemma card_processFile:
  "processFile exampleEnv SOURCE_DEFINITIONS None (asc ''a.xlsx'') cardWorkbook =
     Inr (Processed [deriveColumns cardRecord])"
proof -
  have "d_type (si_def cardInfo) \<noteq> salary_summary"
    by (simp add: cardInfo_def kb_card_def salary_summary_def asc_def)
  then show ?thesis
    by (simp add: processFile_def card_identifySource card_normalizeData classifyData_def)
qed

lemma card_channels:
  "deriveColumns cardRecord =
     cardRecord\<lparr>display_date := VStr (asc ''2025-01-10''), col_transfer := VStr [],
       col_account := VStr [], col_cash := VStr [], col_card := VNum (Fin 4500),
       col_card_detail := VStr n_kb_card\<rparr>"
  by (simp add: deriveColumns_def cardRecord_def cardMarker_def accountMarker_def
      n_kb_card_def)

subsection \<open>Payment channels\<close>

lemma normalizeRows_amount:
  "e \<in> set (normalizeRows ev (\<lambda>v. VNum (f v)) filename df cols k rows) \<Longrightarrow>
   \<exists>n. amount e = VNum n"
  by (induction rows arbitrary: k) (auto simp: rowEntry_def split: if_splits)

lemma normalizeData_amount:
  assumes "normalizeData ev filename jd info = Inr es" and "e \<in> set es"
  shows "\<exists>n. amount e = VNum n"
  using assms normalizeRows_amount
  by (fastforce simp: normalizeData_def split: sum.splits)

lemma normalizeSalarySummary_amount:
  assumes "normalizeSalarySummary ev filename jd info = Inr es" and "e \<in> set es"
  shows "\<exists>n. amount e = VNum n"
  using assms
  by (auto simp: normalizeSalarySummary_def Let_def salaryEntry_def
      split: sum.splits option.splits)

lemma classifyData_origin:
  assumes "e \<in> set (classifyData lc rules data)"
  shows "\<exists>e0 e1. e0 \<in> set data \<and> e = deriveColumns e1 \<and> amount e1 = amount e0 \<and>
                 raw_source e1 = raw_source e0"
proof (cases rules)
  case None
  with assms obtain x where "x \<in> set data" "e = deriveColumns x"
    by (auto simp: classifyData_def)
  then show ?thesis by blast
next
  case (Some rs)
  with assms obtain x where x: "x \<in> set data" "e = deriveColumns (applyRules lc rs x)"
    by (auto simp: classifyData_def)
  with applyRules_keeps(2,3) [of lc rs x] show ?thesis by blast
qed

lemma deriveColumns_channels:
  assumes "amount e = VNum n"
  shows "oneChannel (deriveColumns e)"
    and "str_includes (raw_source e) cardMarker \<Longrightarrow>
         col_card (deriveColumns e) = amount e \<and>
         col_card_detail (deriveColumns e) = VStr (raw_source e) \<and>
         transferEmpty (deriveColumns e) \<and> cashEmpty (deriveColumns e)"
    and "\<not> str_includes (raw_source e) cardMarker \<Longrightarrow>
         str_includes (raw_source e) accountMarker \<Longrightarrow>
         col_transfer (deriveColumns e) = amount e \<and>
         col_account (deriveColumns e) = VStr (raw_source e) \<and>
         cardEmpty (deriveColumns e) \<and> cashEmpty (deriveColumns e)"
    and "\<not> str_includes (raw_source e) cardMarker \<Longrightarrow>
         \<not> str_includes (raw_source e) accountMarker \<Longrightarrow>
         col_cash (deriveColumns e) = amount e \<and>
         cardEmpty (deriveColumns e) \<and> transferEmpty (deriveColumns e)"
proof -
  have ne: "str_includes s m \<Longrightarrow> m \<noteq> [] \<Longrightarrow> s \<noteq> []" for s m :: ustring
    by (cases s) auto
  have c: "str_includes (raw_source e) cardMarker \<Longrightarrow> raw_source e \<noteq> []"
    using ne [of "raw_source e" cardMarker] by (simp add: cardMarker_def)
  have a: "str_includes (raw_source e) accountMarker \<Longrightarrow> raw_source e \<noteq> []"
    using ne [of "raw_source e" accountMarker] by (simp add: accountMarker_def)
  show "oneChannel (deriveColumns e)"
    using assms c a
    by (auto simp: deriveColumns_def Let_def oneChannel_def cardPopulated_def
        transferPopulated_def cashPopulated_def cardEmpty_def transferEmpty_def cashEmpty_def)
qed (simp_all add: deriveColumns_def Let_def cardEmpty_def transferEmpty_def cashEmpty_def)

text \<open>
  C4: every record that the pipeline returns has exactly one populated channel group,
  chosen from \<open>raw_source\<close> alone: the card group when the name contains the card marker
  (also when it contains the account marker as well), else the transfer group when it
  contains the account marker, else the cash group.
\<close>

theorem classifyData_one_channel:
  assumes "processFile ev defs rules filename wb = Inr (Processed recs)"
    and "e \<in> set recs"
  shows "oneChannel e \<and>
    (str_includes (raw_source e) cardMarker \<longrightarrow>
       col_card e = amount e \<and> col_card_detail e = VStr (raw_source e) \<and>
       transferEmpty e \<and> cashEmpty e) \<and>
    (\<not> str_includes (raw_source e) cardMarker \<and> str_includes (raw_source e) accountMarker \<longrightarrow>
       col_transfer e = amount e \<and> col_account e = VStr (raw_source e) \<and>
       cardEmpty e \<and> cashEmpty e) \<and>
    (\<not> str_includes (raw_source e) cardMarker \<and> \<not> str_includes (raw_source e) accountMarker \<longrightarrow>
       col_cash e = amount e \<and> cardEmpty e \<and> transferEmpty e)"
proof -
  from assms(1) obtain info nd where
    nd: "(if d_type (si_def info) = salary_summary
          then normalizeSalarySummary ev filename (jsonData info) info
          else normalizeData ev filename (jsonData info) info) = Inr nd"
    and recs: "recs = classifyData (toLowerCase ev) rules nd"
    by (auto simp: processFile_def split: identification.splits sum.splits)
  from assms(2) recs obtain e0 e1 where
    e0: "e0 \<in> set nd" and e: "e = deriveColumns e1"
    and keep: "amount e1 = amount e0" "raw_source e1 = raw_source e0"
    using classifyData_origin by blast
  from nd e0 have "\<exists>n. amount e0 = VNum n"
    using normalizeData_amount normalizeSalarySummary_amount
    by (auto split: if_splits)
  then obtain n where n: "amount e1 = VNum n"
    using keep by auto
  have src: "raw_source e = raw_source e1" and amt: "amount e = amount e1"
    using e by (simp_all add: deriveColumns_keeps)
  show ?thesis
    using deriveColumns_channels [OF n] unfolding e [symmetric] src [symmetric] amt [symmetric]
    by blast
qed

theorem classifyData_one_channel_witness:
  "processFile exampleEnv SOURCE_DEFINITIONS None (asc ''a.xlsx'') cardWorkbook =
     Inr (Processed [deriveColumns cardRecord]) \<and>
   oneChannel (deriveColumns cardRecord) \<and>
   col_card (deriveColumns cardRecord) = VNum (Fin 4500) \<and>
   col_cash (deriveColumns cardRecord) = VStr []"
proof -
  have "deriveColumns cardRecord \<in> set [deriveColumns cardRecord]"
    by simp
  from classifyData_one_channel [OF card_processFile this] show ?thesis
    by (simp add: card_processFile card_channels)
qed

subsection \<open>Source identification\<close>

lemma str_includes_sublist: "str_includes s t \<longleftrightarrow> sublist t s"
  by (induction s) (auto simp: sublist_Cons_right)

lemma find_append_case:
  "find P (xs @ ys) = (case find P xs of None \<Rightarrow> find P ys | Some x \<Rightarrow> Some x)"
  by (induction xs) auto

lemma find_map_option: "find P (map f xs) = map_option f (find (\<lambda>x. P (f x)) xs)"
  by (induction xs) auto

lemma length_trimmedRow: "length (trimmedRow ns r) = length r"
  by (simp add: trimmedRow_def arr_map_def)

lemma isMatch_sigInRow:
  "isMatch (cleanRow (trimmedRow ns r)) sigs = list_all (sigInRow ns r) sigs"
proof -
  have "arr_some (\<lambda>cell. str_includes cell (stripWs sig)) (cleanRow (trimmedRow ns r)) =
        sigInRow ns r sig" for sig
    by (induction r)
       (auto simp: arr_some_def cleanRow_def trimmedRow_def arr_map_def sigInRow_def
          cellText_def str_includes_sublist split: option.splits)
  then show ?thesis
    by (simp add: isMatch_def)
qed

lemma scanDefs_find: "scanDefs (trimmedRow ns r) defs = find (accepted ns r) defs"
  by (induction defs) (auto simp: isMatch_sigInRow length_trimmedRow accepted_def)

lemma scanRows_find:
  "scanRows ns defs i rows =
     map_option (\<lambda>(j, r, d). (d, trimmedRow ns r, j))
       (find (\<lambda>(j, r, d). accepted ns r d) (rowCandidates defs i rows))"
proof (induction rows arbitrary: i)
  case Nil
  then show ?case by (simp add: rowCandidates_def)
next
  case (Cons r rs)
  have split: "rowCandidates defs i (r # rs) =
               map (\<lambda>d. (i, r, d)) defs @ rowCandidates defs (Suc i) rs"
    by (simp add: rowCandidates_def)
  show ?case
    by (simp add: split find_append_case find_map_option scanDefs_find Cons.IH
        split: option.split)
qed

lemma scanSheets_find:
  "scanSheets ns defs wb =
     map_option (\<lambda>(name, rows, j, r, d).
         \<lparr>si_def = d, headerRow = trimmedRow ns r, headerIndex = j,
          sheetName = name, jsonData = rows\<rparr>)
       (find (\<lambda>(name, rows, j, r, d). accepted ns r d) (candidates defs wb))"
proof (induction wb)
  case Nil
  then show ?case by (simp add: candidates_def)
next
  case (Cons sheet wb)
  obtain name rows where sheet: "sheet = (name, rows)"
    by (cases sheet)
  have split: "candidates defs (sheet # wb) =
      map (\<lambda>(j, r, d). (name, rows, j, r, d)) (rowCandidates defs 0 (take 500 rows))
      @ candidates defs wb"
    by (simp add: candidates_def sheet)
  have first: "find (\<lambda>(name, rows, j, r, d). accepted ns r d)
        (map (\<lambda>(j, r, d). (name, rows, j, r, d)) (rowCandidates defs 0 (take 500 rows))) =
      map_option (\<lambda>(j, r, d). (name, rows, j, r, d))
        (find (\<lambda>(j, r, d). accepted ns r d) (rowCandidates defs 0 (take 500 rows)))"
    by (simp add: find_map_option case_prod_unfold)
  show ?case
    unfolding split find_append_case first
    by (simp add: sheet scanRows_find MAX_SEARCH_ROWS_def Cons.IH [unfolded sheet]
        split: option.split)
qed

lemma identifySource_refines:
  "identifySource ns defs filename wb = identifySource_spec ns defs wb"
  by (simp add: identifySource_def identifySource_spec_def scanSheets_find split: option.split)

text \<open>
  C1: \<open>identifySource\<close> returns the first accepted candidate in the order sheets, rows
  (the first 500 of a sheet), definitions; a candidate is accepted when every signature
  keyword, stripped of whitespace, is contained in the stripped, trimmed text of some
  cell of the row, and the row has no fewer columns than the definition has keywords.
\<close>

theorem identifySource_first_match:
  "identifySource ns defs filename wb = identifySource_spec ns defs wb"
  by (rule identifySource_refines)

theorem identifySource_first_match_witness:
  "identifySource_spec (numToString exampleEnv) SOURCE_DEFINITIONS cardWorkbook =
     Identified cardInfo"
  using identifySource_first_match [of "numToString exampleEnv" SOURCE_DEFINITIONS "[]" cardWorkbook]
  by (simp add: card_identifySource)

subsection \<open>Failed identification\<close>

lemmas catalog_defs = SOURCE_DEFINITIONS_def kb_card_def bc_card_def shinhan_card_def
  samsung_card_def citi_account_def citi_card_def

lemmas sig_defs = h_use_date_def h_approval_datetime_def h_trade_date_def h_card_number_def
  h_trade_datetime_def h_use_datetime_def

lemma blankRow_identifySource:
  "identifySource ns SOURCE_DEFINITIONS filename blankRowWorkbook = NotIdentified []"
  by (simp add: identifySource_def blankRowWorkbook_def MAX_SEARCH_ROWS_def trimmedRow_def
      cleanRow_def arr_map_def arr_some_def isMatch_def debugHeader_def catalog_defs)

lemma memo_trimmedRow:
  "trimmedRow (numToString exampleEnv) [Some (VStr (asc ''Memo'')), None, Some (VNum (Fin 12))] =
     [Some (asc ''Memo''), None, Some (asc ''12'')]"
  by (simp add: trimmedRow_def arr_map_def exampleEnv_def intToString_def natDigits.simps
      numTruthy_def str_defs)

lemma memo_scanDefs:
  "scanDefs [Some (asc ''Memo''), None, Some (asc ''12'')] SOURCE_DEFINITIONS = None"
  by (simp add: cleanRow_def arr_map_def arr_some_def isMatch_def catalog_defs sig_defs str_defs)

lemma memo_debugHeader:
  "debugHeader (numToString exampleEnv) memoWorkbook = asc ''Memo,,12''"
  by (simp add: debugHeader_def memoWorkbook_def joinElem_def exampleEnv_def intToString_def
      natDigits.simps asc_def)

lemma memo_identifySource:
  "identifySource (numToString exampleEnv) SOURCE_DEFINITIONS filename memoWorkbook =
     NotIdentified (asc ''Memo,,12'')"
  unfolding identifySource_def memo_debugHeader
  by (simp add: memoWorkbook_def MAX_SEARCH_ROWS_def memo_trimmedRow memo_scanDefs)

lemma spec_NotIdentified:
  "identifySource_spec ns defs wb = NotIdentified p \<Longrightarrow>
   find (\<lambda>(name, rows, j, r, d). accepted ns r d) (candidates defs wb) = None"
  by (auto simp: identifySource_spec_def split: option.splits)

lemma processFile_normalized_only_identified:
  assumes "processFile ev defs rules filename wb \<noteq>
           Inr (IdentFailure filename (failureMsg (debugHeader (numToString ev) wb)))"
  shows "\<exists>info. identifySource (numToString ev) defs filename wb = Identified info"
proof (cases "identifySource (numToString ev) defs filename wb")
  case (Identified info)
  then show ?thesis by simp
next
  case (NotIdentified probe)
  then have "probe = debugHeader (numToString ev) wb"
    by (auto simp: identifySource_def split: option.splits)
  with NotIdentified assms show ?thesis
    by (simp add: processFile_def)
qed

text \<open>
  C8, with the probe stated as the code builds it: the specification's "always populated"
  fails on a first row without cells, whose probe is the empty string.
\<close>

theorem probe_empty_counterexample:
  "identifySource (numToString exampleEnv) SOURCE_DEFINITIONS (asc ''a.xlsx'') blankRowWorkbook =
     NotIdentified [] \<and>
   [] \<noteq> asc ''EMPTY'' \<and>
   processFile exampleEnv SOURCE_DEFINITIONS None (asc ''a.xlsx'') blankRowWorkbook =
     Inr (IdentFailure (asc ''a.xlsx'') (failureMsg []))"
  by (simp add: processFile_def blankRow_identifySource asc_def)

text \<open>
  C8 as amended: when no candidate is accepted, identification returns no definition
  and the probe, and the pipeline resolves to the single failure record without running
  a normalizer; the probe is \<open>EMPTY\<close> when the workbook has no sheet or its first sheet
  has no row, and else the first ten cells of the first row of the first sheet joined
  by commas; any other outcome of the pipeline comes from an identified definition.
\<close>

theorem identifySource_failure_probe:
  "(find (\<lambda>(name, rows, j, r, d). accepted (numToString ev) r d) (candidates defs wb) = None \<longrightarrow>
      identifySource (numToString ev) defs filename wb =
        NotIdentified (debugHeader (numToString ev) wb) \<and>
      processFile ev defs rules filename wb =
        Inr (IdentFailure filename (failureMsg (debugHeader (numToString ev) wb)))) \<and>
   debugHeader ns [] = asc ''EMPTY'' \<and>
   debugHeader ns ((name, []) # wb') = asc ''EMPTY'' \<and>
   debugHeader ns ((name, r # rows) # wb') = joinComma ns (take 10 r) \<and>
   (processFile ev defs rules filename wb \<noteq>
      Inr (IdentFailure filename (failureMsg (debugHeader (numToString ev) wb))) \<longrightarrow>
    (\<exists>info. identifySource (numToString ev) defs filename wb = Identified info))"
proof -
  have "identifySource (numToString ev) defs filename wb =
          NotIdentified (debugHeader (numToString ev) wb) \<and>
        processFile ev defs rules filename wb =
          Inr (IdentFailure filename (failureMsg (debugHeader (numToString ev) wb)))"
    if "find (\<lambda>(name, rows, j, r, d). accepted (numToString ev) r d) (candidates defs wb) = None"
    using that
    by (simp add: processFile_def identifySource_refines identifySource_spec_def)
  then show ?thesis
    using processFile_normalized_only_identified [of ev defs rules filename wb]
    by (simp add: debugHeader_def)
qed

theorem identifySource_failure_probe_witness:
  "find (\<lambda>(name, rows, j, r, d). accepted (numToString exampleEnv) r d)
     (candidates SOURCE_DEFINITIONS memoWorkbook) = None \<and>
   identifySource (numToString exampleEnv) SOURCE_DEFINITIONS (asc ''a.xlsx'') memoWorkbook =
     NotIdentified (asc ''Memo,,12'') \<and>
   processFile exampleEnv SOURCE_DEFINITIONS None (asc ''a.xlsx'') memoWorkbook =
     Inr (IdentFailure (asc ''a.xlsx'') (failureMsg (asc ''Memo,,12'')))"
proof -
  have none: "find (\<lambda>(name, rows, j, r, d). accepted (numToString exampleEnv) r d)
     (candidates SOURCE_DEFINITIONS memoWorkbook) = None"
    using memo_identifySource [of "[]"] spec_NotIdentified
    by (simp add: identifySource_refines)
  with identifySource_failure_probe
         [of exampleEnv SOURCE_DEFINITIONS memoWorkbook "asc ''a.xlsx''" None]
  show ?thesis
    by (simp add: memo_debugHeader)
qed

subsection \<open>Field mapper\<close>

lemma firstIndexWhere_range:
  "firstIndexWhere P xs = - 1 \<longleftrightarrow> \<not> list_ex P xs"
  by (simp add: firstIndexWhere_def)

lemma indexOfFrom_dense:
  "indexOfFrom i (map Some hs) t =
     (if t \<in> set hs then i + int (length (takeWhile (\<lambda>h. h \<noteq> t) hs)) else - 1)"
  by (induction hs arbitrary: i) auto

lemma findIndexFrom_dense:
  "findIndexFrom i P (map Some hs) =
     Inr (if list_ex P hs then i + int (length (takeWhile (\<lambda>h. \<not> P h) hs)) else - 1)"
  by (induction hs arbitrary: i) auto

lemma indexOf_dense: "indexOf (map Some hs) t = firstIndexWhere (\<lambda>h. h = t) hs"
  by (simp add: indexOf_def indexOfFrom_dense firstIndexWhere_def list_ex_iff)

lemma findIndex_dense: "findIndex P (map Some hs) = Inr (firstIndexWhere P hs)"
  by (simp add: findIndex_def findIndexFrom_dense firstIndexWhere_def)

lemma colOfTarget_dense: "colOfTarget (map Some hs) t = Inr (resolveTarget hs t)"
proof -
  have "(\<lambda>h. str_includes h t) = (\<lambda>h. sublist t h)"
    by (simp add: str_includes_sublist)
  then show ?thesis
    by (simp add: colOfTarget_def resolveTarget_def indexOf_dense findIndex_dense
        firstIndexWhere_range list_ex_iff)
qed

lemma colOfTargets_dense: "colOfTargets (map Some hs) ts = Inr (resolveField hs ts)"
  by (induction ts) (simp_all add: colOfTarget_dense)

lemma getColIdx_dense:
  "getColIdx (map Some hs) fieldName = Inr (resolveField hs (targetCols fieldName))"
  by (simp add: getColIdx_def colOfTargets_dense)

lemma getColIdx_exact_wins:
  assumes "t \<in> set hs" and "t \<noteq> []"
  shows "getColIdx (map Some hs) (Some (Single t)) =
         Inr (int (length (takeWhile (\<lambda>h. h \<noteq> t) hs)))"
  using assms
  by (simp add: getColIdx_dense targetCols_def resolveTarget_def firstIndexWhere_def list_ex_iff)

lemma getColIdx_unconfigured:
  "getColIdx hr None = Inr (- 1)" "getColIdx hr (Some (Single [])) = Inr (- 1)"
  "getColIdx hr (Some (Multi [])) = Inr (- 1)"
  by (simp_all add: getColIdx_def targetCols_def)

lemma sparse_time_column:
  "getColIdx sparseHeader (Some (Single h_use_time)) = Inl TypeError"
  by (simp add: sparseHeader_def getColIdx_def targetCols_def colOfTarget_def indexOf_def
      findIndex_def str_defs header_defs)

lemma dense_time_column:
  "getColIdx [Some h_use_date, Some h_use_place, Some h_use_amount_won]
     (Some (Single h_use_time)) = Inr (- 1)"
  by (simp add: getColIdx_def targetCols_def colOfTarget_def indexOf_def findIndex_def
      str_defs header_defs)

lemma sparse_trimmedRow:
  "trimmedRow ns [Some (VStr h_use_date), None, Some (VStr h_use_place),
                  Some (VStr h_use_amount_won)] = sparseHeader"
  by (simp add: trimmedRow_def arr_map_def sparseHeader_def str_defs header_defs)

lemma sparse_scanDefs: "scanDefs sparseHeader SOURCE_DEFINITIONS = Some kb_card"
  by (simp add: sparseHeader_def SOURCE_DEFINITIONS_def kb_card_def isMatch_def cleanRow_def
      arr_map_def arr_some_def str_defs header_defs)

lemma sparse_identifySource:
  "identifySource ns SOURCE_DEFINITIONS filename sparseWorkbook =
     Identified \<lparr>si_def = kb_card, headerRow = sparseHeader, headerIndex = 0,
                 sheetName = asc ''Sheet1'', jsonData = snd (hd sparseWorkbook)\<rparr>"
  by (simp add: identifySource_def sparseWorkbook_def MAX_SEARCH_ROWS_def sparse_trimmedRow
      sparse_scanDefs)

lemma sparse_resolveColumns:
  "resolveColumns sparseHeader (d_mapping kb_card) = Inl TypeError"
proof -
  have d: "getColIdx sparseHeader (Some (Single h_use_date)) = Inr 0"
    by (simp add: sparseHeader_def getColIdx_def targetCols_def colOfTarget_def indexOf_def
        header_defs)
  show ?thesis
    by (simp add: resolveColumns_def kb_card_def noMapping_def d sparse_time_column)
qed

text \<open>
  C5 on the code: over a header row with an empty slot, a name that has no exact match
  makes \<open>getColIdx\<close> raise a \<open>TypeError\<close> where the specification promises \<open>-1\<close>; the card
  statement whose header row has an empty cell where the time column was is identified
  and then rejected with that error.
\<close>

theorem getColIdx_sparse_header:
  "getColIdx sparseHeader (Some (Single h_use_time)) = Inl TypeError \<and>
   getColIdx [Some h_use_date, Some h_use_place, Some h_use_amount_won]
     (Some (Single h_use_time)) = Inr (- 1) \<and>
   processFile exampleEnv SOURCE_DEFINITIONS None (asc ''a.xlsx'') sparseWorkbook =
     Inl TypeError"
proof -
  have "d_type kb_card \<noteq> salary_summary"
    by (simp add: kb_card_def salary_summary_def asc_def)
  then show ?thesis
    by (simp add: processFile_def sparse_identifySource normalizeData_def
        sparse_resolveColumns sparse_time_column dense_time_column)
qed

subsection \<open>Payroll-summary normalizer\<close>

lemma filter_dropWhile_neg: "filter (\<lambda>x. \<not> P x) (dropWhile P xs) = filter (\<lambda>x. \<not> P x) xs"
  by (induction xs) auto

lemma stripWs_trim: "stripWs (trim s) = stripWs s"
proof -
  have "stripWs (trim s) = rev (filter (\<lambda>c. \<not> isWhiteSpace c) (dropWhile isWhiteSpace (rev (dropWhile isWhiteSpace s))))"
    by (simp add: stripWs_def trim_def rev_filter)
  also have "\<dots> = rev (filter (\<lambda>c. \<not> isWhiteSpace c) (rev (dropWhile isWhiteSpace s)))"
    by (simp only: filter_dropWhile_neg)
  also have "\<dots> = filter (\<lambda>c. \<not> isWhiteSpace c) (dropWhile isWhiteSpace s)"
    by (simp add: rev_filter)
  also have "\<dots> = stripWs s"
    by (simp add: stripWs_def filter_dropWhile_neg)
  finally show ?thesis .
qed

lemma cellHasTotal_sublist:
  "cellHasTotal ns cell \<longleftrightarrow> truthy cell \<and> sublist totalMarker (stripWs (toStr ns cell))"
  by (auto simp: cellHasTotal_def stripWs_trim str_includes_sublist)

lemma findTotalRow_find: "findTotalRow ns rows = find (arr_some (cellHasTotal ns)) rows"
  by (induction rows) (auto simp: arr_some_def)

lemma normalizeSalarySummary_resolved:
  assumes "getColIdx_salary (headerRow info) (m_net_payment (d_mapping (si_def info))) = Inr iNet"
    and "getColIdx_salary (headerRow info) (m_total_deduction (d_mapping (si_def info))) = Inr iDed"
    and "getColIdx_salary (headerRow info) (m_employee_name (d_mapping (si_def info))) = Inr iName"
  shows "normalizeSalarySummary ev filename jd info =
     Inr (case find (arr_some (cellHasTotal (numToString ev))) (drop (Suc (headerIndex info)) jd) of
            None \<Rightarrow> []
          | Some totalRow \<Rightarrow>
              [salaryEntry ev filename (si_def info) 0
                 (extractKRW (orZeroV (arr_get totalRow iNet)))
                 label_personnel_spaced label_personnel,
               salaryEntry ev filename (si_def info) 1
                 (extractKRW (orZeroV (arr_get totalRow iDed)))
                 label_income_tax label_income_tax,
               salaryEntry ev filename (si_def info) 2
                 (fdiv (fadd (extractKRW (orZeroV (arr_get totalRow iNet)))
                             (extractKRW (orZeroV (arr_get totalRow iDed)))) (Fin 12))
                 label_pension label_pension])"
  using assms
  by (simp add: normalizeSalarySummary_def Let_def findTotalRow_find split: option.split)

lemma getColIdx_salary_dense:
  "getColIdx_salary (map Some hs) None = Inr (- 1)"
  "getColIdx_salary (map Some hs) (Some (Single s)) =
     Inr (if s = [] then - 1 else resolveTarget hs s)"
  by (simp_all add: getColIdx_salary_def colOfTarget_dense)

lemma toDouble_3400000: "toDouble (3000000 + 400000) = Fin 3400000"
  by code_simp

lemma toDouble_pension: "toDouble (3400000 / 12) = Fin (4867629602133333 / 17179869184)"
  by code_simp

lemma ymdOfDay_20103: "ymdOfDay 20103 = (2025, 1, 15)"
  by code_simp

lemma ymdString_20103:
  assumes "(t + tza t) div 86400000 = 20103"
  shows "ymdString tza (Some t) = asc ''2025-01-15''"
  by (simp add: ymdString_def assms ymdOfDay_20103 intToString_def natDigits.simps
      padStart2_def asc_def)

lemma today_example:
  "ymdString (localTZA exampleEnv) (Some (now exampleEnv)) = asc ''2025-01-15''"
  by (rule ymdString_20103) (simp add: exampleEnv_def)

lemma salary_columns:
  "getColIdx_salary (headerRow salaryInfo) (m_net_payment (d_mapping (si_def salaryInfo))) = Inr 1"
  "getColIdx_salary (headerRow salaryInfo) (m_total_deduction (d_mapping (si_def salaryInfo))) = Inr 2"
  "getColIdx_salary (headerRow salaryInfo) (m_employee_name (d_mapping (si_def salaryInfo))) = Inr 0"
  by (simp_all add: salaryInfo_def salaryDef_def noMapping_def getColIdx_salary_def
      colOfTarget_def indexOf_def h_name_def h_net_payment_def h_total_deduction_def)

lemma salary_totalRow:
  "find (arr_some (cellHasTotal (numToString exampleEnv)))
     (drop (Suc (headerIndex salaryInfo)) (jsonData salaryInfo)) =
   Some [Some (VStr totalMarker), Some (VNum (Fin 3000000)), Some (VNum (Fin 400000))]"
  by (simp add: salaryInfo_def arr_some_def cellHasTotal_def totalMarker_def exampleEnv_def
      intToString_def natDigits.simps numTruthy_def str_defs)

lemma salary_example:
  "map amount (projr (normalizeSalarySummary exampleEnv (asc ''a.xlsx'') (jsonData salaryInfo) salaryInfo)) =
     [VNum (Fin 3000000), VNum (Fin 400000), VNum (Fin (4867629602133333 / 17179869184))] \<and>
   map date (projr (normalizeSalarySummary exampleEnv (asc ''a.xlsx'') (jsonData salaryInfo) salaryInfo)) =
     [asc ''2025-01-15'', asc ''2025-01-15'', asc ''2025-01-15'']"
  unfolding normalizeSalarySummary_resolved [OF salary_columns] salary_totalRow
  using toDouble_3400000 toDouble_pension
  by (simp add: salaryEntry_def today_example arr_get_def orZeroV_def numTruthy_def
      fadd_def fdiv_def)

lemma salary_sparse_deduction:
  "getColIdx_salary (headerRow salarySparseInfo)
     (m_total_deduction (d_mapping (si_def salarySparseInfo))) = Inl TypeError"
  by (simp add: salarySparseInfo_def salaryDef_def noMapping_def getColIdx_salary_def
      colOfTarget_def indexOf_def findIndex_def h_name_def h_net_payment_def
      h_total_deduction_def str_defs)

lemma salary_sparse_net:
  "getColIdx_salary (headerRow salarySparseInfo)
     (m_net_payment (d_mapping (si_def salarySparseInfo))) = Inr 2"
  by (simp add: salarySparseInfo_def salaryDef_def noMapping_def getColIdx_salary_def
      colOfTarget_def indexOf_def h_name_def h_net_payment_def)

text \<open>
  C2 on the code: for the payroll summary whose header row has an empty cell and no
  deduction column, \<open>normalizeSalarySummary\<close> raises a \<open>TypeError\<close> while resolving the
  deduction column, although the sheet has a totals row; the specification promises three records.
\<close>

theorem normalizeSalarySummary_sparse_header:
  "normalizeSalarySummary exampleEnv (asc ''a.xlsx'') (jsonData salarySparseInfo) salarySparseInfo =
     Inl TypeError \<and>
   find (arr_some (cellHasTotal (numToString exampleEnv)))
     (drop (Suc (headerIndex salarySparseInfo)) (jsonData salarySparseInfo)) =
     Some [Some (VStr totalMarker), None, Some (VNum (Fin 3000000))]"
proof -
  have "find (arr_some (cellHasTotal (numToString exampleEnv)))
     (drop (Suc (headerIndex salarySparseInfo)) (jsonData salarySparseInfo)) =
     Some [Some (VStr totalMarker), None, Some (VNum (Fin 3000000))]"
    by (simp add: salarySparseInfo_def arr_some_def cellHasTotal_def totalMarker_def
        str_defs)
  then show ?thesis
    by (simp add: normalizeSalarySummary_def Let_def salary_sparse_net salary_sparse_deduction)
qed

subsection \<open>The two versions of the row-wise normalizer\<close>

lemma formatDate_randomUUID: "formatDate (ev\<lparr>randomUUID := u\<rparr>) d = formatDate ev d"
  by (cases "(ev, d)" rule: formatDate.cases) (simp_all add: formatDateString_def Let_def)

lemma rawAmount_numeric:
  assumes "numericOrEmpty (arr_get r (idxAmtMain cols))"
    and "numericOrEmpty (arr_get r (idxAmtAlt cols))"
  shows "\<exists>n. rawAmount cols r = VNum n"
proof -
  have "truthy v \<Longrightarrow> numericOrEmpty v \<Longrightarrow> \<exists>n. v = VNum n" for v
    by (cases v) auto
  with assms show ?thesis
    by (auto simp: rawAmount_def)
qed

lemma cleanInline_numeric: "cleanInline (VNum n) = VNum (extractKRW (VNum n))"
  by (simp add: cleanInline_def)

lemma rowEntry_versions:
  assumes "numericOrEmpty (arr_get r (idxAmtMain cols))"
    and "numericOrEmpty (arr_get r (idxAmtAlt cols))"
  shows "withoutId (rowEntry ev cleanInline filename df cols k r) =
         withoutId (rowEntry (ev\<lparr>randomUUID := u\<rparr>) (\<lambda>v. VNum (extractKRW v)) filename df cols k' r)"
proof -
  from rawAmount_numeric [OF assms] obtain n where "rawAmount cols r = VNum n" ..
  then show ?thesis
    by (simp add: withoutId_def rowEntry_def formatDate_randomUUID cleanInline_numeric)
qed

lemma normalizeRows_versions:
  assumes "\<forall>r\<in>set rows. numericOrEmpty (arr_get r (idxAmtMain cols)) \<and>
                         numericOrEmpty (arr_get r (idxAmtAlt cols))"
  shows "map withoutId (normalizeRows ev cleanInline filename df cols k rows) =
         map withoutId (normalizeRows (ev\<lparr>randomUUID := u\<rparr>) (\<lambda>v. VNum (extractKRW v))
                          filename df cols k' rows)"
  using assms
proof (induction rows arbitrary: k k')
  case Nil
  then show ?case by simp
next
  case (Cons r rs)
  then have r: "numericOrEmpty (arr_get r (idxAmtMain cols))"
      "numericOrEmpty (arr_get r (idxAmtAlt cols))"
    and rs: "\<forall>r\<in>set rs. numericOrEmpty (arr_get r (idxAmtMain cols)) \<and>
                          numericOrEmpty (arr_get r (idxAmtAlt cols))"
    by simp_all
  show ?case
    using Cons.IH [OF rs] rowEntry_versions [OF r]
    by simp
qed

text \<open>
  C10: when every amount cell that the resolved columns read below the header holds a
  Number or is empty, the inline-cleaning \<open>normalizeData\<close> and the \<open>extractKRW\<close> one
  return the same records up to the generated identifiers, or both raise the same error.
\<close>

theorem normalizeData_versions_agree:
  assumes "\<And>cols r. resolveColumns (headerRow info) (d_mapping (si_def info)) = Inr cols \<Longrightarrow>
             r \<in> set (drop (Suc (headerIndex info)) jd) \<Longrightarrow>
             numericOrEmpty (arr_get r (idxAmtMain cols)) \<and>
             numericOrEmpty (arr_get r (idxAmtAlt cols))"
  shows "map_sum id (map withoutId) (normalizeData_inline ev filename jd info) =
         map_sum id (map withoutId) (normalizeData (ev\<lparr>randomUUID := u\<rparr>) filename jd info)"
proof (cases "resolveColumns (headerRow info) (d_mapping (si_def info))")
  case (Inl e)
  then show ?thesis
    by (simp add: normalizeData_def normalizeData_inline_def)
next
  case (Inr cols)
  with assms have "\<forall>r\<in>set (drop (Suc (headerIndex info)) jd).
      numericOrEmpty (arr_get r (idxAmtMain cols)) \<and> numericOrEmpty (arr_get r (idxAmtAlt cols))"
    by blast
  from normalizeRows_versions [OF this] Inr show ?thesis
    by (simp add: normalizeData_def normalizeData_inline_def)
qed

theorem normalizeData_versions_agree_witness:
  "normalizeData_inline exampleEnv (asc ''a.xlsx'') (jsonData cardInfo) cardInfo =
     Inr [cardRecord] \<and>
   map_sum id (map withoutId)
     (normalizeData (exampleEnv\<lparr>randomUUID := (\<lambda>k. asc ''id'')\<rparr>) (asc ''a.xlsx'')
        (jsonData cardInfo) cardInfo) =
     Inr [withoutId cardRecord]"
proof -
  have rows: "drop (Suc (headerIndex cardInfo)) (jsonData cardInfo) =
      [[Some (VStr (asc ''2025-01-10'')), Some (VStr (asc ''13:00'')),
        Some (VStr [49828, 53440, 48261, 49828]), Some (VNum (Fin 4500))]]"
    by (simp add: cardInfo_def cardWorkbook_def)
  have hyp: "numericOrEmpty (arr_get r (idxAmtMain cols)) \<and>
             numericOrEmpty (arr_get r (idxAmtAlt cols))"
    if "resolveColumns (headerRow cardInfo) (d_mapping (si_def cardInfo)) = Inr cols"
      and "r \<in> set (drop (Suc (headerIndex cardInfo)) (jsonData cardInfo))" for cols r
    using that unfolding card_resolveColumns rows
    by (auto simp: arr_get_def)
  have old: "normalizeData_inline exampleEnv (asc ''a.xlsx'') (jsonData cardInfo) cardInfo =
      Inr [cardRecord]"
  proof -
    have "headerIndex cardInfo = 0" "jsonData cardInfo = snd (hd cardWorkbook)"
      "si_def cardInfo = kb_card"
      by (simp_all add: cardInfo_def)
    then show ?thesis
      unfolding normalizeData_inline_def card_resolveColumns
      by (simp add: card_normalizeRows cardRecord_def cleanInline_def)
  qed
  from normalizeData_versions_agree [of cardInfo "jsonData cardInfo" exampleEnv "asc ''a.xlsx''"
      "\<lambda>k. asc ''id''", OF hyp]
  show ?thesis
    by (simp add: old)
qed

subsection \<open>Date normalizer\<close>

lemma formatDate_unparsed:
  assumes "\<not> isEightDigits (cleanDate s)" and "\<not> isIsoDate (cleanDate s)"
    and "dateParse ev (cleanDate s) = NaN"
  shows "formatDate ev (Val (VStr s)) = cleanDate s"
proof (cases "s = []")
  case True
  then show ?thesis
    by (simp add: cleanDate_def trim_def)
next
  case False
  with assms show ?thesis
    by (simp add: formatDateString_def Let_def)
qed

lemma cleanDate_examples:
  "cleanDate (asc ''20250115'') = asc ''20250115''"
  "cleanDate (asc ''2025-01-15'') = asc ''2025-01-15''"
  "cleanDate (asc ''2025.01.15 13:20'') = asc ''2025-01-15''"
  by (simp_all add: cleanDate_def str_defs)

lemma formatDate_string_examples:
  "formatDate ev (Val (VStr (asc ''20250115''))) = asc ''2025-01-15''"
  "formatDate ev (Val (VStr (asc ''2025-01-15''))) = asc ''2025-01-15''"
  "formatDate ev (Val (VStr (asc ''2025.01.15 13:20''))) = asc ''2025-01-15''"
proof -
  have ne: "asc ''20250115'' \<noteq> []" "asc ''2025-01-15'' \<noteq> []" "asc ''2025.01.15 13:20'' \<noteq> []"
    by (simp_all add: asc_def)
  have e: "isEightDigits (asc ''20250115'')" "\<not> isEightDigits (asc ''2025-01-15'')"
    "isIsoDate (asc ''2025-01-15'')"
    by (simp_all add: isEightDigits_def isIsoDate_def asc_def isDigit_def)
  have t: "take 4 (asc ''20250115'') @ 45 # take 2 (drop 4 (asc ''20250115'')) @
           45 # take 2 (drop 6 (asc ''20250115'')) = asc ''2025-01-15''"
    by (simp add: asc_def)
  show "formatDate ev (Val (VStr (asc ''20250115''))) = asc ''2025-01-15''"
    by (simp add: ne formatDateString_def cleanDate_examples e t)
  show "formatDate ev (Val (VStr (asc ''2025-01-15''))) = asc ''2025-01-15''"
    by (simp add: ne formatDateString_def cleanDate_examples e)
  show "formatDate ev (Val (VStr (asc ''2025.01.15 13:20''))) = asc ''2025-01-15''"
    by (simp add: ne formatDateString_def cleanDate_examples e)
qed

lemma toDouble_serial:
  "toDouble 20103 = Fin 20103"
  "toDouble 1736899200 = Fin 1736899200"
  "toDouble 1736899200000 = Fin 1736899200000"
  by code_simp+

lemma serial_45672_time:
  "timeClip (mathRound (fmul (fmul (fsub (Fin 45672) (Fin 25569)) (Fin 86400)) (Fin 1000))) =
     Some ((45672 - 25569) * 86400 * 1000)"
proof -
  have "fsub (Fin 45672) (Fin 25569) = Fin 20103"
    by (simp add: fsub_def fadd_def toDouble_serial)
  moreover have "fmul (Fin 20103) (Fin 86400) = Fin 1736899200"
    by (simp add: fmul_def toDouble_serial)
  moreover have "fmul (Fin 1736899200) (Fin 1000) = Fin 1736899200000"
    by (simp add: fmul_def toDouble_serial)
  moreover have "\<lfloor>1736899200000 + 1 / 2 :: rat\<rfloor> = 1736899200000"
    by linarith
  ultimately show ?thesis
    by (simp add: timeClip_def)
qed

lemma ymdOfDay_20102: "ymdOfDay 20102 = (2025, 1, 14)"
  by code_simp

lemma ymdString_20102:
  assumes "(t + tza t) div 86400000 = 20102"
  shows "ymdString tza (Some t) = asc ''2025-01-14''"
  by (simp add: ymdString_def assms ymdOfDay_20102 intToString_def natDigits.simps
      padStart2_def asc_def)

text \<open>
  The serial \<open>45672\<close> is the instant \<open>(45672 - 25569) * 86400 * 1000\<close> milliseconds after
  1970-01-01T00:00:00Z, midnight UTC of 2025-01-15, and the result is the local date of
  that instant: 2025-01-15 in every zone at or east of UTC, the day before in every zone
  west of it.
\<close>

lemma formatDate_serial_45672:
  "formatDate ev (Val (VNum (Fin 45672))) = ymdString (localTZA ev) (Some 1736899200000)"
  by (simp add: numTruthy_def serial_45672_time)

lemma formatDate_serial_east:
  assumes "0 \<le> localTZA ev 1736899200000" and "localTZA ev 1736899200000 < 86400000"
  shows "formatDate ev (Val (VNum (Fin 45672))) = asc ''2025-01-15''"
proof -
  from assms have "(1736899200000 + localTZA ev 1736899200000) div 86400000 = 20103"
    by linarith
  from ymdString_20103 [of 1736899200000 "localTZA ev", OF this] show ?thesis
    unfolding formatDate_serial_45672 by simp
qed

lemma formatDate_serial_west:
  assumes "- 86400000 \<le> localTZA ev 1736899200000" and "localTZA ev 1736899200000 < 0"
  shows "formatDate ev (Val (VNum (Fin 45672))) = asc ''2025-01-14''"
proof -
  from assms have "(1736899200000 + localTZA ev 1736899200000) div 86400000 = 20102"
    by linarith
  from ymdString_20102 [of 1736899200000 "localTZA ev", OF this] show ?thesis
    unfolding formatDate_serial_45672 by simp
qed

text \<open>Serial \<open>1\<close> read at UTC is 1899-12-31: serial day \<open>0\<close> of the offset is 1899-12-30.\<close>

lemma toDouble_serial_1:
  "toDouble (- 25568) = Fin (- 25568)"
  "toDouble (- 2209075200) = Fin (- 2209075200)"
  "toDouble (- 2209075200000) = Fin (- 2209075200000)"
  by code_simp+

lemma serial_1_time:
  "timeClip (mathRound (fmul (fmul (fsub (Fin 1) (Fin 25569)) (Fin 86400)) (Fin 1000))) =
     Some (- 2209075200000)"
proof -
  have "fsub (Fin 1) (Fin 25569) = Fin (- 25568)"
    by (simp add: fsub_def fadd_def toDouble_serial_1)
  moreover have "fmul (Fin (- 25568)) (Fin 86400) = Fin (- 2209075200)"
    by (simp add: fmul_def toDouble_serial_1)
  moreover have "fmul (Fin (- 2209075200)) (Fin 1000) = Fin (- 2209075200000)"
    by (simp add: fmul_def toDouble_serial_1)
  moreover have "\<lfloor>- 2209075200000 + 1 / 2 :: rat\<rfloor> = - 2209075200000"
    by linarith
  ultimately show ?thesis
    by (simp add: timeClip_def)
qed

lemma ymdOfDay_serial_1: "ymdOfDay (- 25568) = (1899, 12, 31)"
  by code_simp

lemma formatDate_serial_1_utc:
  "formatDate utcEnv (Val (VNum (Fin 1))) = asc ''1899-12-31''"
proof -
  have "formatDate utcEnv (Val (VNum (Fin 1))) =
      ymdString (localTZA utcEnv) (Some (- 2209075200000))"
    by (simp add: numTruthy_def serial_1_time)
  also have "\<dots> = asc ''1899-12-31''"
    by (simp add: ymdString_def utcEnv_def ymdOfDay_serial_1 intToString_def natDigits.simps
        padStart2_def asc_def)
  finally show ?thesis .
qed

text \<open>A string that no strategy parses comes back cleaned: \<open>n/a\<close> gives \<open>n-a\<close>.\<close>

lemma formatDate_unparsed_example:
  "formatDate exampleEnv (Val (VStr (asc ''n/a''))) = asc ''n-a''"
proof -
  have c: "cleanDate (asc ''n/a'') = asc ''n-a''"
    by (simp add: cleanDate_def str_defs)
  have "\<not> isEightDigits (asc ''n-a'')" "\<not> isIsoDate (asc ''n-a'')"
    "dateParse exampleEnv (asc ''n-a'') = NaN"
    by (simp_all add: isEightDigits_def isIsoDate_def exampleEnv_def asc_def)
  with formatDate_unparsed [of "asc ''n/a''" exampleEnv] show ?thesis
    unfolding c by blast
qed

text \<open>
  C7 on the code: in an engine whose local time is five hours behind UTC, \<open>formatDate\<close>
  maps the serial \<open>45672\<close> to \<open>2025-01-14\<close>, the day before the date that the epoch offset
  gives (serial day \<open>0\<close> = 1899-12-30, so serial \<open>45672\<close> = 2025-01-15); the specification
  promises the date of the epoch offset. The serial is turned into midnight UTC of its
  date and then read with the local-time getters. At UTC and at UTC+9 the same call
  gives \<open>2025-01-15\<close>, and serial \<open>1\<close> read at UTC is 1899-12-31.
\<close>

theorem formatDate_serial_behind_utc:
  "formatDate westEnv (Val (VNum (Fin 45672))) = asc ''2025-01-14'' \<and>
   formatDate utcEnv (Val (VNum (Fin 45672))) = asc ''2025-01-15'' \<and>
   formatDate exampleEnv (Val (VNum (Fin 45672))) = asc ''2025-01-15'' \<and>
   formatDate utcEnv (Val (VNum (Fin 1))) = asc ''1899-12-31''"
proof -
  have "formatDate westEnv (Val (VNum (Fin 45672))) = asc ''2025-01-14''"
    by (rule formatDate_serial_west) (simp_all add: westEnv_def)
  moreover have "formatDate utcEnv (Val (VNum (Fin 45672))) = asc ''2025-01-15''"
    by (rule formatDate_serial_east) (simp_all add: utcEnv_def)
  moreover have "formatDate exampleEnv (Val (VNum (Fin 45672))) = asc ''2025-01-15''"
    by (rule formatDate_serial_east) (simp_all add: exampleEnv_def)
  ultimately show ?thesis
    using formatDate_serial_1_utc by blast
qed

subsection \<open>HTML repair filter\<close>

lemma tdAt_Cons: "tdAt (c # cs) \<Longrightarrow> c = 60"
  by (auto simp: tdAt_def split: list.splits)

lemma tdAt_iff:
  "tdAt s \<longleftrightarrow> (\<exists>b c r. s = 60 # b # c # r \<and> (b = 116 \<or> b = 84) \<and> (c = 100 \<or> c = 68))"
  by (auto simp: tdAt_def split: list.splits)

lemma matchTd_None_iff: "matchTd s = None \<longleftrightarrow> \<not> (tdAt s \<and> gtThenTd (drop 3 s))"
proof (cases "dropWhile (\<lambda>c. c \<noteq> 62) (drop 3 s)")
  case Nil
  then show ?thesis
    by (simp add: matchTd_def gtThenTd_def del: dropWhile_eq_Nil_conv)
next
  case (Cons gt r2)
  then show ?thesis
    by (simp add: matchTd_def gtThenTd_def firstLtIsTd_def)
qed

lemma matchTd_not_lt: "c \<noteq> 60 \<Longrightarrow> matchTd (c # cs) = None"
  using tdAt_Cons by (auto simp: matchTd_None_iff)

lemma close_not_lt: "c \<noteq> 60 \<Longrightarrow> closeUnclosedTd (c # cs) = c # closeUnclosedTd cs"
  by (simp add: matchTd_not_lt)

lemma matchTd_SomeD:
  assumes "matchTd s = Some (pre, g3, rest)"
  shows "\<exists>h a b. pre = h @ a @ 62 # b \<and> s = pre @ g3 @ rest \<and> tdAt h \<and> length h = 3 \<and>
                 62 \<notin> set (h @ a) \<and> 60 \<notin> set b \<and> tdAt g3 \<and> length g3 = 3"
proof -
  from assms have td: "tdAt s"
    by (auto simp: matchTd_def split: if_splits)
  then obtain x y r where s: "s = 60 # x # y # r" and xy: "x = 116 \<or> x = 84" "y = 100 \<or> y = 68"
    by (auto simp: tdAt_iff)
  let ?a = "takeWhile (\<lambda>c. c \<noteq> 62) r"
  from assms s td obtain gt r2 where r2: "dropWhile (\<lambda>c. c \<noteq> 62) r = gt # r2"
    and td3: "tdAt (dropWhile (\<lambda>c. c \<noteq> 60) r2)"
    and pre: "pre = [60, x, y] @ ?a @ gt # takeWhile (\<lambda>c. c \<noteq> 60) r2"
    and g3: "g3 = take 3 (dropWhile (\<lambda>c. c \<noteq> 60) r2)"
    and rest: "rest = drop 3 (dropWhile (\<lambda>c. c \<noteq> 60) r2)"
    by (auto simp: matchTd_def split: if_splits list.splits)
  have gt: "gt = 62"
    using r2 hd_dropWhile [of "\<lambda>c. c \<noteq> 62" r] by auto
  have r: "r = ?a @ 62 # r2"
    using takeWhile_dropWhile_id [of "\<lambda>c. c \<noteq> 62" r] r2 gt by simp
  have r2': "r2 = takeWhile (\<lambda>c. c \<noteq> 60) r2 @ g3 @ rest"
    unfolding g3 rest by simp
  have a62: "62 \<notin> set ?a"
    by (auto dest: set_takeWhileD)
  have b60: "60 \<notin> set (takeWhile (\<lambda>c. c \<noteq> 60) r2)"
    by (auto dest: set_takeWhileD)
  have g3td: "tdAt g3" "length g3 = 3"
    using td3 unfolding g3 by (auto simp: tdAt_iff)
  have hd3: "tdAt [60, x, y]"
    using xy by (simp add: tdAt_def)
  have s': "s = pre @ g3 @ rest"
    unfolding pre gt using s r r2' by simp
  show ?thesis
    apply (rule exI [of _ "[60, x, y]"])
    apply (rule exI [of _ ?a])
    apply (rule exI [of _ "takeWhile (\<lambda>c. c \<noteq> 60) r2"])
    using pre gt s' hd3 a62 b60 g3td xy by auto
qed

lemma close_hd: "\<exists>r. closeUnclosedTd (c # cs) = c # r"
proof (cases "matchTd (c # cs)")
  case None
  then show ?thesis by simp
next
  case (Some m)
  obtain pre g3 rest where m: "m = (pre, g3, rest)"
    by (cases m)
  from matchTd_SomeD [OF Some [unfolded m]] obtain h a b where
    "pre = h @ a @ 62 # b" "c # cs = pre @ g3 @ rest" "length h = 3"
    by blast
  then obtain pre' where "pre = c # pre'"
    by (cases h) auto
  with Some m show ?thesis by simp
qed

lemma tdAt_close_Cons: "tdAt (60 # closeUnclosedTd cs) = tdAt (60 # cs)"
proof (cases cs)
  case Nil
  then show ?thesis by simp
next
  case (Cons a cs')
  show ?thesis
  proof (cases "a = 60")
    case True
    obtain r where "closeUnclosedTd (a # cs') = a # r"
      using close_hd by blast
    with True Cons show ?thesis
      by (simp add: tdAt_def split: list.splits)
  next
    case False
    note a = this
    show ?thesis
    proof (cases cs')
      case Nil
      with Cons a show ?thesis
        by (simp add: matchTd_not_lt tdAt_def)
    next
      case (Cons b cs'')
      obtain r where r: "closeUnclosedTd (b # cs'') = b # r"
        using close_hd by blast
      have "closeUnclosedTd (a # b # cs'') = a # b # r"
        by (simp only: close_not_lt [OF a] r)
      with Cons \<open>cs = a # cs'\<close> show ?thesis
        by (simp add: tdAt_def del: closeUnclosedTd.simps)
    qed
  qed
qed

lemma firstLtIsTd_close: "firstLtIsTd (closeUnclosedTd w) = firstLtIsTd w"
proof (induction w rule: closeUnclosedTd.induct)
  case 1
  then show ?case by simp
next
  case (2 c cs)
  show ?case
  proof (cases "matchTd (c # cs)")
    case None
    show ?thesis
    proof (cases "c = 60")
      case True
      then show ?thesis
        using None tdAt_close_Cons [of cs] by (simp add: firstLtIsTd_def)
    next
      case False
      from "2.IH" None have "firstLtIsTd (closeUnclosedTd cs) = firstLtIsTd cs"
        by simp
      with False None show ?thesis
        by (simp add: firstLtIsTd_def)
    qed
  next
    case (Some m)
    obtain pre g3 rest where m: "m = (pre, g3, rest)"
      by (cases m)
    from matchTd_SomeD [OF Some [unfolded m]] obtain h a b where
      d: "pre = h @ a @ 62 # b" "c # cs = pre @ g3 @ rest" "tdAt h" "length h = 3"
      by blast
    from d(3) obtain x y where h: "h = [60, x, y]" "x = 116 \<or> x = 84" "y = 100 \<or> y = 68"
      using d(4) by (auto simp: tdAt_iff)
    have "firstLtIsTd (c # cs)"
      unfolding d(2) d(1) h(1) using h(2,3) by (simp add: firstLtIsTd_def tdAt_def)
    moreover have "firstLtIsTd (closeUnclosedTd (c # cs))"
      using Some m h(2,3) unfolding d(1) h(1)
      by (simp add: firstLtIsTd_def tdAt_def)
    ultimately show ?thesis by simp
  qed
qed

lemma not_gtThenTd_closed:
  assumes "62 \<notin> set a" and "60 \<notin> set b"
  shows "\<not> gtThenTd (a @ 62 # b @ asc ''</td>'' @ y)"
proof -
  have "dropWhile (\<lambda>c. c \<noteq> 62) (a @ 62 # b @ asc ''</td>'' @ y) = 62 # b @ asc ''</td>'' @ y"
    using assms(1) by (induction a) auto
  moreover have "dropWhile (\<lambda>c. c \<noteq> 60) (b @ asc ''</td>'' @ y) = asc ''</td>'' @ y"
    using assms(2) by (induction b) (auto simp: asc_def)
  ultimately show ?thesis
    by (simp add: gtThenTd_def firstLtIsTd_def tdAt_def asc_def)
qed

lemma gtThenTd_close: "gtThenTd (closeUnclosedTd w) \<Longrightarrow> gtThenTd w"
proof (induction w rule: closeUnclosedTd.induct)
  case 1
  then show ?case by simp
next
  case (2 c cs)
  show ?case
  proof (cases "matchTd (c # cs)")
    case None
    show ?thesis
    proof (cases "c = 62")
      case True
      then show ?thesis
        using None "2.prems" firstLtIsTd_close [of cs] by (simp add: gtThenTd_def)
    next
      case False
      from "2.prems" False None have "gtThenTd (closeUnclosedTd cs)"
        by (simp add: gtThenTd_def)
      with "2.IH" None have "gtThenTd cs"
        by simp
      with False show ?thesis
        by (simp add: gtThenTd_def)
    qed
  next
    case (Some m)
    obtain pre g3 rest where m: "m = (pre, g3, rest)"
      by (cases m)
    from matchTd_SomeD [OF Some [unfolded m]] obtain h a b where
      d: "pre = h @ a @ 62 # b" "62 \<notin> set (h @ a)" "60 \<notin> set b"
      by blast
    have "closeUnclosedTd (c # cs) =
          (h @ a) @ 62 # b @ asc ''</td>'' @ (g3 @ closeUnclosedTd rest)"
      using Some m d(1) by simp
    with not_gtThenTd_closed [OF d(2,3)] "2.prems" show ?thesis
      by simp
  qed
qed

lemma matchTd_close_Cons:
  assumes "matchTd (c # cs) = None"
  shows "matchTd (c # closeUnclosedTd cs) = None"
proof (rule ccontr)
  assume "matchTd (c # closeUnclosedTd cs) \<noteq> None"
  then have td: "tdAt (c # closeUnclosedTd cs)"
    and g: "gtThenTd (drop 3 (c # closeUnclosedTd cs))"
    by (simp_all add: matchTd_None_iff)
  from td have c: "c = 60"
    by (rule tdAt_Cons)
  with td have td': "tdAt (60 # cs)"
    by (simp add: tdAt_close_Cons)
  then obtain x y r where cs: "cs = x # y # r" and xy: "x = 116 \<or> x = 84" "y = 100 \<or> y = 68"
    by (auto simp: tdAt_iff)
  from xy have "x \<noteq> 60" "y \<noteq> 60"
    by auto
  then have "closeUnclosedTd cs = x # y # closeUnclosedTd r"
    unfolding cs by (simp add: matchTd_not_lt)
  with g have "gtThenTd (closeUnclosedTd r)"
    by simp
  then have "gtThenTd r"
    by (rule gtThenTd_close)
  with td' c cs have "matchTd (c # cs) \<noteq> None"
    by (simp add: matchTd_None_iff)
  with assms show False
    by simp
qed

lemma matchTd_close_group:
  assumes "length g3 = 3" and "matchTd (g3 @ rest) = None"
  shows "matchTd (g3 @ closeUnclosedTd rest) = None"
proof -
  from assms(1) obtain x y z where g3: "g3 = [x, y, z]"
    by (cases g3; cases "tl g3"; cases "tl (tl g3)") auto
  have "tdAt (g3 @ closeUnclosedTd rest) = tdAt (g3 @ rest)"
    by (simp add: g3 tdAt_def)
  moreover have "gtThenTd (closeUnclosedTd rest) \<Longrightarrow> gtThenTd rest"
    by (rule gtThenTd_close)
  ultimately show ?thesis
    using assms(2) by (auto simp: matchTd_None_iff g3)
qed

lemma countMatches_suffix: "countMatches v \<le> countMatches (u @ v)"
  by (induction u) auto

lemma countMatches_no_lt: "60 \<notin> set u \<Longrightarrow> countMatches (u @ v) = countMatches v"
  by (induction u) (auto simp: matchTd_not_lt)

lemma matchTd_closing_tag: "matchTd (60 # 47 # r) = None"
  by (auto simp: matchTd_None_iff tdAt_iff)

lemma countMatches_closing: "countMatches (asc ''</td>'' @ y) = countMatches y"
  by (simp add: asc_def matchTd_not_lt matchTd_closing_tag)

lemma matchTd_inside_closed:
  assumes "62 \<notin> set (c # a)" and "60 \<notin> set b"
  shows "matchTd (c # a @ 62 # b @ asc ''</td>'' @ y) = None"
proof (cases a)
  case Nil
  then show ?thesis
    by (auto simp: matchTd_None_iff tdAt_iff)
next
  case (Cons p a')
  show ?thesis
  proof (cases a')
    case Nil
    with Cons show ?thesis
      by (auto simp: matchTd_None_iff tdAt_iff)
  next
    case (Cons q a'')
    with \<open>a = p # a'\<close> assms(1) have "62 \<notin> set a''"
      by simp
    from not_gtThenTd_closed [OF this assms(2)] Cons \<open>a = p # a'\<close> show ?thesis
      by (simp add: matchTd_None_iff)
  qed
qed

lemma countMatches_closed:
  assumes "62 \<notin> set a" and "60 \<notin> set b"
  shows "countMatches (a @ 62 # b @ asc ''</td>'' @ y) = countMatches y"
  using assms(1)
proof (induction a)
  case Nil
  have "countMatches (62 # b @ asc ''</td>'' @ y) = countMatches (b @ asc ''</td>'' @ y)"
    by (simp add: matchTd_not_lt)
  also have "\<dots> = countMatches y"
    using assms(2) by (simp add: countMatches_no_lt countMatches_closing)
  finally show ?case by simp
next
  case (Cons c a)
  then have "62 \<notin> set (c # a)"
    by simp
  from matchTd_inside_closed [OF this assms(2)] Cons show ?case
    by simp
qed

lemma countMatches_group:
  assumes "tdAt g3" and "length g3 = 3"
  shows "countMatches (g3 @ x) = (if matchTd (g3 @ x) = None then 0 else 1) + countMatches x"
proof -
  from assms obtain p q where g3: "g3 = [60, p, q]" and pq: "p \<noteq> 60" "q \<noteq> 60"
    by (auto simp: tdAt_iff)
  show ?thesis
    unfolding g3 using pq by (simp add: matchTd_not_lt)
qed

lemma countMatches_close:
  "countMatches (closeUnclosedTd s) \<le> countMatches s \<and>
   (closeUnclosedTd s \<noteq> s \<longrightarrow> countMatches (closeUnclosedTd s) < countMatches s)"
proof (induction s rule: closeUnclosedTd.induct)
  case 1
  then show ?case by simp
next
  case (2 c cs)
  show ?case
  proof (cases "matchTd (c # cs)")
    case None
    from "2.IH" None have ih: "countMatches (closeUnclosedTd cs) \<le> countMatches cs"
      "closeUnclosedTd cs \<noteq> cs \<longrightarrow> countMatches (closeUnclosedTd cs) < countMatches cs"
      by simp_all
    have "matchTd (c # closeUnclosedTd cs) = None"
      using None by (rule matchTd_close_Cons)
    with None ih show ?thesis
      by simp
  next
    case (Some m)
    obtain pre g3 rest where m: "m = (pre, g3, rest)"
      by (cases m)
    from "2.IH" Some m have ih: "countMatches (closeUnclosedTd rest) \<le> countMatches rest"
      by simp
    from matchTd_SomeD [OF Some [unfolded m]] obtain h a b where
      d: "pre = h @ a @ 62 # b" "c # cs = pre @ g3 @ rest" "62 \<notin> set (h @ a)" "60 \<notin> set b"
        "tdAt g3" "length g3 = 3" "length h = 3"
      by blast
    have out: "closeUnclosedTd (c # cs) =
          (h @ a) @ 62 # b @ asc ''</td>'' @ (g3 @ closeUnclosedTd rest)"
      using Some m d(1) by simp
    have "countMatches (closeUnclosedTd (c # cs)) = countMatches (g3 @ closeUnclosedTd rest)"
      unfolding out by (rule countMatches_closed [OF d(3,4)])
    also have "\<dots> = (if matchTd (g3 @ closeUnclosedTd rest) = None then 0 else 1)
                       + countMatches (closeUnclosedTd rest)"
      by (rule countMatches_group [OF d(5,6)])
    also have "\<dots> \<le> (if matchTd (g3 @ rest) = None then 0 else 1) + countMatches rest"
      using ih matchTd_close_group [OF d(6), of rest] by auto
    also have "\<dots> = countMatches (g3 @ rest)"
      by (rule countMatches_group [OF d(5,6), symmetric])
    finally have le: "countMatches (closeUnclosedTd (c # cs)) \<le> countMatches (g3 @ rest)" .
    obtain pre' where pre': "pre = c # pre'"
      using d(1,2,7) by (cases h) auto
    then have "cs = pre' @ g3 @ rest"
      using d(2) by simp
    then have "countMatches (g3 @ rest) \<le> countMatches cs"
      using countMatches_suffix [of "g3 @ rest" pre'] by simp
    moreover have "countMatches (c # cs) = 1 + countMatches cs"
      using Some by simp
    ultimately show ?thesis
      using le by (simp del: closeUnclosedTd.simps)
  qed
qed

lemma length_close:
  "length s \<le> length (closeUnclosedTd s) \<and>
   (length (closeUnclosedTd s) = length s \<longrightarrow> closeUnclosedTd s = s)"
proof (induction s rule: closeUnclosedTd.induct)
  case 1
  then show ?case by simp
next
  case (2 c cs)
  show ?case
  proof (cases "matchTd (c # cs)")
    case None
    with "2.IH" show ?thesis
      by simp
  next
    case (Some m)
    obtain pre g3 rest where m: "m = (pre, g3, rest)"
      by (cases m)
    from "2.IH" Some m have ih: "length rest \<le> length (closeUnclosedTd rest)"
      by simp
    from matchTd_SomeD [OF Some [unfolded m]] have d: "c # cs = pre @ g3 @ rest"
      by blast
    have "length (closeUnclosedTd (c # cs)) =
          length pre + 5 + length g3 + length (closeUnclosedTd rest)"
      using Some m by (simp add: asc_def)
    moreover have "length (c # cs) = length pre + length g3 + length rest"
      unfolding d by simp
    ultimately have "length (c # cs) < length (closeUnclosedTd (c # cs))"
      using ih by linarith
    then show ?thesis
      by (simp del: closeUnclosedTd.simps)
  qed
qed

lemma fixTdLoop_passes:
  "\<exists>n\<le>countMatches s.
     fixTdLoop (closeUnclosedTd s) (length s) = Some ((closeUnclosedTd ^^ n) s) \<and>
     closeUnclosedTd ((closeUnclosedTd ^^ n) s) = (closeUnclosedTd ^^ n) s"
proof (induction "countMatches s" arbitrary: s rule: less_induct)
  case less
  show ?case
  proof (cases "length (closeUnclosedTd s) = length s")
    case True
    then have fp: "closeUnclosedTd s = s"
      using length_close [of s] by simp
    have "fixTdLoop (closeUnclosedTd s) (length s) = Some s"
      by (subst fixTdLoop.simps) (simp add: fp)
    then show ?thesis
      using fp by (intro exI [of _ 0]) simp
  next
    case False
    then have "closeUnclosedTd s \<noteq> s"
      by auto
    then have lt: "countMatches (closeUnclosedTd s) < countMatches s"
      using countMatches_close [of s] by simp
    from less [OF lt] obtain n where n: "n \<le> countMatches (closeUnclosedTd s)"
      and run: "fixTdLoop (closeUnclosedTd (closeUnclosedTd s)) (length (closeUnclosedTd s)) =
                Some ((closeUnclosedTd ^^ n) (closeUnclosedTd s))"
      and fp: "closeUnclosedTd ((closeUnclosedTd ^^ n) (closeUnclosedTd s)) =
                (closeUnclosedTd ^^ n) (closeUnclosedTd s)"
      by blast
    have "fixTdLoop (closeUnclosedTd s) (length s) =
          fixTdLoop (closeUnclosedTd (closeUnclosedTd s)) (length (closeUnclosedTd s))"
      by (subst fixTdLoop.simps) (simp add: False)
    with run have "fixTdLoop (closeUnclosedTd s) (length s) =
          Some ((closeUnclosedTd ^^ Suc n) s)"
      by (simp add: funpow_swap1)
    moreover have "closeUnclosedTd ((closeUnclosedTd ^^ Suc n) s) = (closeUnclosedTd ^^ Suc n) s"
      using fp by (simp add: funpow_swap1)
    moreover have "Suc n \<le> countMatches s"
      using n lt by simp
    ultimately show ?thesis
      by blast
  qed
qed

lemma fixTdLoop_terminates: "\<exists>r. fixTdLoop s p = Some r"
proof (cases "length s = p")
  case True
  then show ?thesis
    by (subst fixTdLoop.simps) simp
next
  case False
  from fixTdLoop_passes [of s] obtain r where "fixTdLoop (closeUnclosedTd s) (length s) = Some r"
    by blast
  with False show ?thesis
    by (subst fixTdLoop.simps) simp
qed

lemma fixTdLoop_fixpoint:
  "\<exists>n\<le>countMatches s.
     fixTdLoop s 0 = Some ((closeUnclosedTd ^^ n) s) \<and>
     closeUnclosedTd ((closeUnclosedTd ^^ n) s) = (closeUnclosedTd ^^ n) s"
proof (cases "s = []")
  case True
  have "fixTdLoop [] 0 = Some []"
    by (subst fixTdLoop.simps) simp
  with True show ?thesis
    by (intro exI [of _ 0]) simp
next
  case False
  from fixTdLoop_passes [of s] obtain n where n: "n \<le> countMatches s"
    and run: "fixTdLoop (closeUnclosedTd s) (length s) = Some ((closeUnclosedTd ^^ n) s)"
    and fp: "closeUnclosedTd ((closeUnclosedTd ^^ n) s) = (closeUnclosedTd ^^ n) s"
    by blast
  have "fixTdLoop s 0 = fixTdLoop (closeUnclosedTd s) (length s)"
    using False by (subst fixTdLoop.simps) simp
  with n run fp show ?thesis
    by auto
qed

text \<open>
  C9: the loop returns on every text and for every starting value of \<open>prevLength\<close>; from
  \<open>prevLength = 0\<close>, as the source starts it, the result is the text after at most as
  many changing passes as the text has positions where the pattern matches, and that
  result is a fixed point of the pass; \<open>preprocessHtmlIfNeeded\<close> returns on every input.
\<close>

theorem fixTdLoop_converges:
  "(\<exists>r. fixTdLoop s p = Some r) \<and>
   (\<exists>n\<le>countMatches s.
      fixTdLoop s 0 = Some ((closeUnclosedTd ^^ n) s) \<and>
      closeUnclosedTd ((closeUnclosedTd ^^ n) s) = (closeUnclosedTd ^^ n) s) \<and>
   (\<exists>out. preprocessHtmlIfNeeded decode encode data filename = Some out)"
proof -
  obtain r where "fixTdLoop (decode data) 0 = Some r"
    using fixTdLoop_terminates by blast
  then have "\<exists>out. preprocessHtmlIfNeeded decode encode data filename = Some out"
    by (simp add: preprocessHtmlIfNeeded_def Let_def)
  with fixTdLoop_terminates [of s p] fixTdLoop_fixpoint [of s] show ?thesis
    by blast
qed

lemma close_example:
  "closeUnclosedTd (asc ''<td>a<td>b'') = asc ''<td>a</td><td>b''"
  "closeUnclosedTd (asc ''<td>a</td><td>b'') = asc ''<td>a</td><td>b''"
  "countMatches (asc ''<td>a<td>b'') = 1"
  by (simp_all add: asc_def matchTd_def tdAt_def)

theorem fixTdLoop_converges_witness:
  "fixTdLoop (asc ''<td>a<td>b'') 0 = Some (asc ''<td>a</td><td>b'')"
proof -
  from fixTdLoop_converges [of "asc ''<td>a<td>b''" 0]
  obtain n where n: "n \<le> countMatches (asc ''<td>a<td>b'')"
    and run: "fixTdLoop (asc ''<td>a<td>b'') 0 = Some ((closeUnclosedTd ^^ n) (asc ''<td>a<td>b''))"
    and fp: "closeUnclosedTd ((closeUnclosedTd ^^ n) (asc ''<td>a<td>b'')) =
             (closeUnclosedTd ^^ n) (asc ''<td>a<td>b'')"
    by blast
  from n have "n = 0 \<or> n = 1"
    unfolding close_example by auto
  then show ?thesis
  proof
    assume "n = 0"
    with fp have "closeUnclosedTd (asc ''<td>a<td>b'') = asc ''<td>a<td>b''"
      by simp
    then have False
      unfolding close_example by (simp add: asc_def)
    then show ?thesis ..
  next
    assume "n = 1"
    with run show ?thesis
      by (simp add: close_example)
  qed
qed

end
